theory Spec2Isabelle
  imports Main
begin

section \<open>The Chargeback operator (pkg/chargeback/operator.go)\<close>

text \<open>
  A shallow embedding of the orchestrator of the metering operator: the Hive query client
  with its reconnect logic, the two connection-acquisition loops, the work-queue error
  policy, the informer event handlers, the worker start-up and the initialized flag.

  Conventions of the model.
  \<^item> A Go value of type \<open>error\<close> is an \<open>err option\<close>; \<open>None\<close> is \<open>nil\<close>. Error values
    that are pointers are taken to point at allocated structs.
  \<^item> Times and durations are natural numbers of nanoseconds, as \<open>time.Duration\<close> counts.
  \<^item> Calls that leave the process (\<open>hive.Connect\<close>, \<open>sql.Open\<close>, a query on a
    connection, the runtime's choice between two ready channels) are answered by a
    \<open>world\<close>, a record of functions indexed by the number of the call.
  \<^item> Calls to the logger change nothing that the operator reads back and are left out.
\<close>

subsection \<open>Errors\<close>

datatype err =
    EOF
  | Errno nat
  | OpError string "err option"
  | SyscallError string err
  | Errorf string "err list"

text \<open>
  \<open>EOF\<close> is the sentinel \<open>io.EOF\<close>, \<open>Errno n\<close> a \<open>syscall.Errno\<close>,
  \<open>OpError op e\<close> a \<open>*net.OpError\<close> with its fields \<open>Op\<close> and \<open>Err\<close> (the address
  fields play no role here), \<open>SyscallError call e\<close> an \<open>*os.SyscallError\<close>, and
  \<open>Errorf format args\<close> the fresh error built by \<open>fmt.Errorf\<close>.
\<close>

type_synonym error = "err option"

definition EPIPE :: nat where
  "EPIPE = 32"

definition isErrBrokenPipe :: "error \<Rightarrow> bool" where
  "isErrBrokenPipe e =
     (case e of
        Some (OpError opn netErr) \<Rightarrow> netErr = Some (Errno EPIPE)
      | _ \<Rightarrow> False)"

subsection \<open>Work queues\<close>

type_synonym key = string

datatype queue_call =
    CallAdd key
  | CallAddRateLimited key
  | CallForget key
  | CallShutDown

record workqueue =
  requeues :: "key \<Rightarrow> nat"
  calls :: "queue_call list"

text \<open>
  Modelled from the spec: the rate-limited work queue of \<open>k8s.io/client-go\<close>, which the
  operator only calls. \<open>add(key)\<close> enqueues, \<open>addRateLimited(key)\<close> enqueues after a
  backoff and counts one more requeue of the key, \<open>forget(key)\<close> resets that count,
  \<open>numRequeues(key)\<close> reads it. Every mutating call is also recorded in \<open>calls\<close>, in order.
\<close>

definition newQueue :: workqueue where
  "newQueue = \<lparr>requeues = (\<lambda>k. 0), calls = []\<rparr>"

definition Add_q :: "key \<Rightarrow> workqueue \<Rightarrow> workqueue" where
  "Add_q k q = q\<lparr>calls := calls q @ [CallAdd k]\<rparr>"

definition AddRateLimited :: "key \<Rightarrow> workqueue \<Rightarrow> workqueue" where
  "AddRateLimited k q =
     q\<lparr>requeues := (requeues q)(k := Suc (requeues q k)),
       calls := calls q @ [CallAddRateLimited k]\<rparr>"

definition Forget :: "key \<Rightarrow> workqueue \<Rightarrow> workqueue" where
  "Forget k q = q\<lparr>requeues := (requeues q)(k := 0), calls := calls q @ [CallForget k]\<rparr>"

definition NumRequeues :: "workqueue \<Rightarrow> key \<Rightarrow> nat" where
  "NumRequeues q k = requeues q k"

definition ShutDown :: "workqueue \<Rightarrow> workqueue" where
  "ShutDown q = q\<lparr>calls := calls q @ [CallShutDown]\<rparr>"

text \<open>\<open>Chargeback.handleErr\<close>: the queue after the call.\<close>

definition handleErr :: "error \<Rightarrow> string \<Rightarrow> key \<Rightarrow> workqueue \<Rightarrow> workqueue" where
  "handleErr e objType k queue =
     (if e = None then Forget k queue
      else if NumRequeues queue k < 5 then AddRateLimited k queue
      else Forget k queue)"

subsection \<open>Informers and their event handlers\<close>

datatype kind =
    Report
  | ScheduledReport
  | ReportDataSource
  | ReportGenerationQuery
  | ReportPrometheusQuery
  | StorageLocation
  | PrestoTable

text \<open>
  What an informer hands to a handler is an \<open>interface{}\<close>: a resource with its namespace
  and name, or a value that carries no object metadata.
\<close>

datatype obj = Resource string string | Opaque

datatype watch_event = Added obj | Updated obj obj | Deleted obj

text \<open>
  Modelled from the spec: \<open>cache.MetaNamespaceKeyFunc\<close> of \<open>k8s.io/client-go\<close>, which is
  not among this repository's sources. The key of a resource is its namespace, a slash and
  its name; a value without object metadata yields an error instead of a key.
\<close>

definition MetaNamespaceKeyFunc :: "obj \<Rightarrow> err + key" where
  "MetaNamespaceKeyFunc ob =
     (case ob of
        Resource ns n \<Rightarrow> Inr (ns @ ''/'' @ n)
      | Opaque \<Rightarrow> Inl (Errorf ''object has no meta: %v'' []))"

type_synonym queues = "kind \<Rightarrow> workqueue"

record handlerFuncs =
  AddFunc :: "(obj \<Rightarrow> queues \<Rightarrow> queues) option"
  UpdateFunc :: "(obj \<Rightarrow> obj \<Rightarrow> queues \<Rightarrow> queues) option"
  DeleteFunc :: "(obj \<Rightarrow> queues \<Rightarrow> queues) option"

text \<open>
  The body shared by every \<open>AddFunc\<close> and \<open>UpdateFunc\<close> literal of \<open>setupInformers\<close>:
  \<open>key, err := cache.MetaNamespaceKeyFunc(obj); if err == nil { queue.Add(key) }\<close>,
  with the queue of kind \<open>k\<close>.
\<close>

definition enqueueKey :: "kind \<Rightarrow> obj \<Rightarrow> queues \<Rightarrow> queues" where
  "enqueueKey k ob qs =
     (case MetaNamespaceKeyFunc ob of
        Inl e \<Rightarrow> qs
      | Inr ky \<Rightarrow> qs(k := Add_q ky (qs k)))"

text \<open>
  \<open>setupInformers\<close>: the handlers that \<open>AddEventHandler\<close> registers on the informer of
  each kind. \<open>handleScheduledReportDeleted\<close> is a method defined outside this file and is
  a parameter here.
\<close>

fun setupInformers :: "(obj \<Rightarrow> queues \<Rightarrow> queues) \<Rightarrow> kind \<Rightarrow> handlerFuncs list" where
  "setupInformers handleScheduledReportDeleted Report =
     [\<lparr>AddFunc = Some (\<lambda>ob. enqueueKey Report ob),
       UpdateFunc = Some (\<lambda>old current. enqueueKey Report current),
       DeleteFunc = None\<rparr>]"
| "setupInformers handleScheduledReportDeleted ScheduledReport =
     [\<lparr>AddFunc = Some (\<lambda>ob. enqueueKey ScheduledReport ob),
       UpdateFunc = Some (\<lambda>old current. enqueueKey ScheduledReport current),
       DeleteFunc = Some handleScheduledReportDeleted\<rparr>]"
| "setupInformers handleScheduledReportDeleted ReportDataSource =
     [\<lparr>AddFunc = Some (\<lambda>ob. enqueueKey ReportDataSource ob),
       UpdateFunc = Some (\<lambda>old current. enqueueKey ReportDataSource current),
       DeleteFunc = None\<rparr>]"
| "setupInformers handleScheduledReportDeleted ReportGenerationQuery =
     [\<lparr>AddFunc = Some (\<lambda>ob. enqueueKey ReportGenerationQuery ob),
       UpdateFunc = Some (\<lambda>old current. enqueueKey ReportGenerationQuery current),
       DeleteFunc = None\<rparr>]"
| "setupInformers handleScheduledReportDeleted ReportPrometheusQuery = []"
| "setupInformers handleScheduledReportDeleted StorageLocation = []"
| "setupInformers handleScheduledReportDeleted PrestoTable = []"

text \<open>
  \<open>cache.ResourceEventHandlerFuncs\<close>: \<open>OnAdd\<close>, \<open>OnUpdate\<close> and \<open>OnDelete\<close> call the
  matching function when it is set and do nothing otherwise. An informer notifies its
  handlers in the order of their registration.
\<close>

definition onEvent :: "handlerFuncs \<Rightarrow> watch_event \<Rightarrow> queues \<Rightarrow> queues" where
  "onEvent h ev qs =
     (case ev of
        Added ob \<Rightarrow> (case AddFunc h of None \<Rightarrow> qs | Some f \<Rightarrow> f ob qs)
      | Updated old current \<Rightarrow> (case UpdateFunc h of None \<Rightarrow> qs | Some f \<Rightarrow> f old current qs)
      | Deleted ob \<Rightarrow> (case DeleteFunc h of None \<Rightarrow> qs | Some f \<Rightarrow> f ob qs))"

fun notify_handlers :: "handlerFuncs list \<Rightarrow> watch_event \<Rightarrow> queues \<Rightarrow> queues" where
  "notify_handlers [] ev qs = qs"
| "notify_handlers (h # hs) ev qs = notify_handlers hs ev (onEvent h ev qs)"

definition informer_event ::
  "(obj \<Rightarrow> queues \<Rightarrow> queues) \<Rightarrow> kind \<Rightarrow> watch_event \<Rightarrow> queues \<Rightarrow> queues" where
  "informer_event handleScheduledReportDeleted k ev qs =
     notify_handlers (setupInformers handleScheduledReportDeleted k) ev qs"

subsection \<open>Configuration\<close>

record Config =
  Namespace :: string
  HiveHost :: string
  PrestoHost :: string
  PromHost :: string
  DisablePromsum :: bool
  LogReport :: bool
  LogDMLQueries :: bool
  LogDDLQueries :: bool
  PromsumInterval :: nat
  PromsumStepSize :: nat
  PromsumChunkSize :: nat

subsection \<open>Worker fibers and wait groups\<close>

datatype fiber =
    PrestoTableWorker
  | ReportDataSourceWorker nat
  | ReportGenerationQueryWorker nat
  | ReportWorker nat
  | ScheduledReportWorker nat
  | ScheduledReportRunner
  | PromsumCollector

text \<open>The work queue a fiber serves, if it serves one.\<close>

fun fiber_kind :: "fiber \<Rightarrow> kind option" where
  "fiber_kind PrestoTableWorker = Some PrestoTable"
| "fiber_kind (ReportDataSourceWorker i) = Some ReportDataSource"
| "fiber_kind (ReportGenerationQueryWorker i) = Some ReportGenerationQuery"
| "fiber_kind (ReportWorker i) = Some Report"
| "fiber_kind (ScheduledReportWorker i) = Some ScheduledReport"
| "fiber_kind ScheduledReportRunner = None"
| "fiber_kind PromsumCollector = None"

definition workers_of :: "kind \<Rightarrow> fiber list \<Rightarrow> nat" where
  "workers_of k fs = length (filter (\<lambda>f. fiber_kind f = Some k) fs)"

definition workers :: "fiber list \<Rightarrow> fiber list" where
  "workers fs = filter (\<lambda>f. fiber_kind f \<noteq> None) fs"

text \<open>
  A \<open>sync.WaitGroup\<close> is a struct, and a Go variable of struct type holds the struct
  itself. Each such variable is an address of the store \<open>wgs\<close>, which maps it to the
  counter of the wait group stored there. \<open>running\<close> lists the fibers that were started and
  have not returned, each with the address of the wait group that its closure calls
  \<open>Done\<close> on.
\<close>

type_synonym addr = nat

record sched =
  wgs :: "addr \<Rightarrow> int"
  running :: "(fiber \<times> addr) list"

definition wg_Add :: "addr \<Rightarrow> int \<Rightarrow> sched \<Rightarrow> sched" where
  "wg_Add a n st = st\<lparr>wgs := (wgs st)(a := wgs st a + n)\<rparr>"

definition wg_Done :: "addr \<Rightarrow> sched \<Rightarrow> sched" where
  "wg_Done a st = wg_Add a (- 1) st"

text \<open>\<open>wg.Wait()\<close> blocks until the counter is zero.\<close>

definition wg_Wait_returns :: "addr \<Rightarrow> sched \<Rightarrow> bool" where
  "wg_Wait_returns a st = (wgs st a = 0)"

definition go :: "fiber \<Rightarrow> addr \<Rightarrow> sched \<Rightarrow> sched" where
  "go f a st = st\<lparr>running := running st @ [(f, a)]\<rparr>"

text \<open>A fiber returns: its closure calls \<open>wg.Done()\<close> on the wait group it captured.\<close>

definition fiber_exit :: "fiber \<Rightarrow> sched \<Rightarrow> sched" where
  "fiber_exit f st =
     (case map_of (running st) f of
        None \<Rightarrow> st
      | Some a \<Rightarrow> wg_Done a (st\<lparr>running := filter (\<lambda>p. fst p \<noteq> f) (running st)\<rparr>))"

fun fibers_exit :: "fiber list \<Rightarrow> sched \<Rightarrow> sched" where
  "fibers_exit [] st = st"
| "fibers_exit (f # fs) st = fibers_exit fs (fiber_exit f st)"

text \<open>
  The loop \<open>for i := 0; i < threadiness; i++\<close> of \<open>startWorkers\<close>; \<open>wg\<close> is the address
  of the parameter \<open>wg\<close>, which the closures capture.
\<close>

function startWorkers_loop :: "nat \<Rightarrow> nat \<Rightarrow> addr \<Rightarrow> sched \<Rightarrow> sched" where
  "startWorkers_loop i threadiness wg st =
     (if i < threadiness then
        (let st1 = go (ReportDataSourceWorker i) wg (wg_Add wg 1 st);
             st2 = go (ReportGenerationQueryWorker i) wg (wg_Add wg 1 st1);
             st3 = go (ReportWorker i) wg (wg_Add wg 1 st2);
             st4 = go (ScheduledReportWorker i) wg (wg_Add wg 1 st3)
         in startWorkers_loop (Suc i) threadiness wg st4)
      else st)"
  by pat_completeness auto
termination
  by (relation "measure (\<lambda>(i, threadiness, wg, st). threadiness - i)") auto

definition startWorkers :: "Config \<Rightarrow> addr \<Rightarrow> sched \<Rightarrow> sched" where
  "startWorkers c wg st =
     (let st1 = go PrestoTableWorker wg (wg_Add wg 1 st);
          threadiness = 2;
          st2 = startWorkers_loop 0 threadiness wg st1;
          st3 = go ScheduledReportRunner wg (wg_Add wg 1 st2)
      in if \<not> DisablePromsum c then go PromsumCollector wg (wg_Add wg 1 st3) else st3)"

text \<open>
  The part of \<open>Chargeback.Run\<close> from \<open>var wg sync.WaitGroup\<close> to the call
  \<open>c.startWorkers(wg, stopCh)\<close>. The variable \<open>wg\<close> of \<open>Run\<close> lives at \<open>Run_wg\<close>. The
  signature is \<open>startWorkers(wg sync.WaitGroup, ...)\<close>: the argument is passed by value, so
  the call stores a copy of the struct in the parameter, at \<open>startWorkers_wg\<close>.
\<close>

definition Run_wg :: addr where
  "Run_wg = 0"

definition startWorkers_wg :: addr where
  "startWorkers_wg = 1"

definition Run_startWorkers :: "Config \<Rightarrow> sched" where
  "Run_startWorkers c =
     (let st0 = \<lparr>wgs = (\<lambda>a. 0), running = []\<rparr>;
          st1 = st0\<lparr>wgs := (wgs st0)(startWorkers_wg := wgs st0 Run_wg)\<rparr>
      in startWorkers c startWorkers_wg st1)"

text \<open>
  After the stop signal \<open>Run\<close> stops the HTTP server, shuts the queues down and calls
  \<open>wg.Wait()\<close> on its own variable; it returns as soon as that call returns.
\<close>

definition Run_returns :: "sched \<Rightarrow> bool" where
  "Run_returns st = wg_Wait_returns Run_wg st"

definition started_fibers :: "Config \<Rightarrow> fiber list" where
  "started_fibers c = map fst (running (Run_startWorkers c))"

definition config0 :: Config where
  "config0 =
     \<lparr>Namespace = ''metering'', HiveHost = ''hive:10000'', PrestoHost = ''presto:8080'',
      PromHost = ''http://prometheus:9090'', DisablePromsum = False, LogReport = False,
      LogDMLQueries = False, LogDDLQueries = False,
      PromsumInterval = 30000000000, PromsumStepSize = 60000000000,
      PromsumChunkSize = 300000000000\<rparr>"

subsection \<open>Time, channels and the outside world\<close>

type_synonym time = nat

definition second :: nat where
  "second = 1000000000"

definition minute :: nat where
  "minute = 60 * second"

definition connBackoff :: nat where
  "connBackoff = second * 15"

definition maxConnWaitTime :: nat where
  "maxConnWaitTime = minute * 3"

definition defaultResyncPeriod :: nat where
  "defaultResyncPeriod = minute"

text \<open>
  A stop channel (\<open><-chan struct{}\<close>) is never sent on, only closed. It is either the
  nil channel, from which a receive never proceeds, or a channel with the time at which it
  is closed, if it ever is; from then on a receive proceeds.
\<close>

datatype chan = NilChan | Chan "time option"

datatype conn = Connection nat bool

text \<open>
  \<open>Connection i l\<close> is the \<open>*hive.Connection\<close> returned by the \<open>i\<close>-th call of
  \<open>hive.Connect\<close>, with the flag given to \<open>SetLogQueries\<close>. \<open>DB s i\<close> is the \<open>*sql.DB\<close>
  returned by the \<open>i\<close>-th call of \<open>sql.Open\<close> for the connection string \<open>s\<close>.
\<close>

datatype db = DB string nat

record world =
  hiveConnect :: "string \<Rightarrow> nat \<Rightarrow> time \<times> error"
  sqlOpen :: "string \<Rightarrow> nat \<Rightarrow> time \<times> error"
  connQuery :: "conn \<Rightarrow> string \<Rightarrow> nat \<Rightarrow> error"
  pickStop :: "nat \<Rightarrow> bool"

text \<open>
  \<open>hiveConnect w host i\<close> is the time taken and the error returned by the \<open>i\<close>-th call of
  \<open>hive.Connect\<close>, \<open>sqlOpen\<close> the same for \<open>sql.Open("prestgo", connStr)\<close>;
  \<open>connQuery w c sql i\<close> is the error of the \<open>i\<close>-th query sent on a connection;
  \<open>pickStop w i\<close> tells whether the runtime takes the stop case in the \<open>i\<close>-th
  \<open>select\<close> when the tick and the stop channel become ready at the same instant.
\<close>

datatype event =
    EvConnect nat
  | EvOpen nat
  | EvQuery conn string
  | EvClose conn

record env =
  now :: time
  connects :: nat
  opens :: nat
  queries :: nat
  selects :: nat
  events :: "event list"

text \<open>
  The \<open>select\<close> of both connection loops:
  \<open>select { case <-clock.Tick(d): case <-stopCh: return ... }\<close>.
  The clock is a real clock: the tick fires \<open>d\<close> after the \<open>select\<close> starts.
\<close>

datatype selected = Tick | Stop

definition select_tick_stop :: "world \<Rightarrow> time \<Rightarrow> chan \<Rightarrow> env \<Rightarrow> selected \<times> env" where
  "select_tick_stop w d stop e =
     (let fire = now e + d; e1 = e\<lparr>selects := Suc (selects e)\<rparr>
      in case stop of
           Chan (Some closed) \<Rightarrow>
             if closed < fire then (Stop, e1\<lparr>now := max (now e) closed\<rparr>)
             else if closed = fire \<and> pickStop w (selects e) then (Stop, e1\<lparr>now := fire\<rparr>)
             else (Tick, e1\<lparr>now := fire\<rparr>)
         | _ \<Rightarrow> (Tick, e1\<lparr>now := fire\<rparr>))"

text \<open>\<open>open_until stop t\<close>: the channel is not closed at any time up to \<open>t\<close>.\<close>

definition open_until :: "chan \<Rightarrow> time \<Rightarrow> bool" where
  "open_until stop t = (case stop of Chan (Some closed) \<Rightarrow> t < closed | _ \<Rightarrow> True)"

text \<open>\<open>never_closed stop\<close>: the channel is nil or is never closed.\<close>

definition never_closed :: "chan \<Rightarrow> bool" where
  "never_closed stop = (case stop of Chan (Some closed) \<Rightarrow> False | _ \<Rightarrow> True)"

subsection \<open>The Presto connection\<close>

text \<open>
  \<open>Chargeback.newPrestoConn\<close>: the loop, with \<open>startTime\<close> fixed before it, and the
  function. \<open>c.clock.Since(startTime)\<close> is \<open>now - startTime\<close>.
\<close>

function newPrestoConn_loop ::
  "world \<Rightarrow> string \<Rightarrow> chan \<Rightarrow> time \<Rightarrow> env \<Rightarrow> (err + db) \<times> env" where
  "newPrestoConn_loop w connStr stopCh startTime e =
     (let r = sqlOpen w connStr (opens e);
          e1 = e\<lparr>now := now e + fst r, opens := Suc (opens e),
                 events := events e @ [EvOpen (opens e)]\<rparr>
      in case snd r of
           None \<Rightarrow> (Inr (DB connStr (opens e)), e1)
         | Some er \<Rightarrow>
             if now e1 - startTime > maxConnWaitTime then
               (Inl (Errorf ''failed to connect to presto: %v'' [er]), e1)
             else
               (let s = select_tick_stop w connBackoff stopCh e1
                in case fst s of
                     Tick \<Rightarrow> newPrestoConn_loop w connStr stopCh startTime (snd s)
                   | Stop \<Rightarrow>
                       (Inl (Errorf ''got shutdown signal, closing Presto connection'' []),
                        snd s)))"
  by pat_completeness auto

termination newPrestoConn_loop
proof (relation "measure (\<lambda>(w, connStr, stopCh, startTime, e). startTime + maxConnWaitTime + 1 - now e)",
    goal_cases)
  case 1
  show ?case by simp
next
  case (2 w connStr stopCh startTime e r e1 er s)
  have "now (snd s) = now e1 + connBackoff"
    using 2
    by (auto simp: select_tick_stop_def Let_def split: chan.splits option.splits if_splits)
  moreover have "now e1 = now e + fst r" using 2 by simp
  moreover have "now e1 \<le> startTime + maxConnWaitTime" using 2 by simp
  moreover have "0 < connBackoff" by (simp add: connBackoff_def second_def)
  ultimately show ?case by simp
qed

definition newPrestoConn :: "world \<Rightarrow> Config \<Rightarrow> chan \<Rightarrow> env \<Rightarrow> (err + db) \<times> env" where
  "newPrestoConn w c stopCh e =
     (let connStr = ''presto://'' @ PrestoHost c @ ''/hive/default'';
          startTime = now e
      in newPrestoConn_loop w connStr stopCh startTime e)"

subsection \<open>The Hive query client\<close>

record hiveQueryer =
  hiveHost :: string
  logQueries :: bool
  hiveConn :: "conn option"
  stopCh :: chan

text \<open>
  \<open>newHiveQueryer\<close> builds the struct from a literal that names the fields \<open>clock\<close>,
  \<open>hiveHost\<close>, \<open>logger\<close> and \<open>logQueries\<close>. The fields \<open>hiveConn\<close> and \<open>stopCh\<close> are
  not named and get their zero values, \<open>nil\<close>; the parameter \<open>stopCh\<close> is not used.
\<close>

definition newHiveQueryer :: "string \<Rightarrow> bool \<Rightarrow> chan \<Rightarrow> hiveQueryer" where
  "newHiveQueryer host logQ stopChannel =
     \<lparr>hiveHost = host, logQueries = logQ, hiveConn = None, stopCh = NilChan\<rparr>"

function newHiveConn_loop ::
  "world \<Rightarrow> hiveQueryer \<Rightarrow> time \<Rightarrow> env \<Rightarrow> (err + conn) \<times> env" where
  "newHiveConn_loop w q startTime e =
     (let r = hiveConnect w (hiveHost q) (connects e);
          e1 = e\<lparr>now := now e + fst r, connects := Suc (connects e),
                 events := events e @ [EvConnect (connects e)]\<rparr>
      in case snd r of
           None \<Rightarrow> (Inr (Connection (connects e) (logQueries q)), e1)
         | Some er \<Rightarrow>
             if now e1 - startTime > maxConnWaitTime then (Inl er, e1)
             else
               (let s = select_tick_stop w connBackoff (stopCh q) e1
                in case fst s of
                     Tick \<Rightarrow> newHiveConn_loop w q startTime (snd s)
                   | Stop \<Rightarrow>
                       (Inl (Errorf ''got shutdown signal, closing hive connection'' []),
                        snd s)))"
  by pat_completeness auto
termination
proof (relation "measure (\<lambda>(w, q, startTime, e). startTime + maxConnWaitTime + 1 - now e)",
    goal_cases)
  case 1
  show ?case by simp
next
  case (2 w q startTime e r e1 er s)
  have "now (snd s) = now e1 + connBackoff"
    using 2
    by (auto simp: select_tick_stop_def Let_def split: chan.splits option.splits if_splits)
  moreover have "now e1 = now e + fst r" using 2 by simp
  moreover have "now e1 \<le> startTime + maxConnWaitTime" using 2 by simp
  moreover have "0 < connBackoff" by (simp add: connBackoff_def second_def)
  ultimately show ?case by simp
qed

definition newHiveConn :: "world \<Rightarrow> hiveQueryer \<Rightarrow> env \<Rightarrow> (err + conn) \<times> env" where
  "newHiveConn w q e = (let startTime = now e in newHiveConn_loop w q startTime e)"

definition getHiveConnection ::
  "world \<Rightarrow> hiveQueryer \<Rightarrow> env \<Rightarrow> (err + conn) \<times> hiveQueryer \<times> env" where
  "getHiveConnection w q e =
     (case hiveConn q of
        Some c \<Rightarrow> (Inr c, q, e)
      | None \<Rightarrow>
          (case newHiveConn w q e of
             (Inl er, e1) \<Rightarrow> (Inl er, q\<lparr>hiveConn := None\<rparr>, e1)
           | (Inr c, e1) \<Rightarrow> (Inr c, q\<lparr>hiveConn := Some c\<rparr>, e1)))"

definition closeHiveConnection :: "hiveQueryer \<Rightarrow> env \<Rightarrow> hiveQueryer \<times> env" where
  "closeHiveConnection q e =
     (case hiveConn q of
        Some c \<Rightarrow> (q\<lparr>hiveConn := None\<rparr>, e\<lparr>events := events e @ [EvClose c]\<rparr>)
      | None \<Rightarrow> (q\<lparr>hiveConn := None\<rparr>, e))"

text \<open>\<open>hiveConn.Query(query)\<close> on a connection.\<close>

definition conn_Query :: "world \<Rightarrow> conn \<Rightarrow> string \<Rightarrow> env \<Rightarrow> error \<times> env" where
  "conn_Query w c query e =
     (connQuery w c query (queries e),
      e\<lparr>queries := Suc (queries e), events := events e @ [EvQuery c query]\<rparr>)"

definition maxRetries :: nat where
  "maxRetries = 3"

definition errUnableToConnect :: err where
  "errUnableToConnect =
     Errorf ''unable to create new hive connection after existing hive connection closed'' []"

text \<open>
  \<open>hiveQueryer.Query\<close>: the \<open>for\<close> loop over \<open>retries\<close> with what follows it, and the
  method, which enters the loop with \<open>retries = 0\<close>.
\<close>

function Query_loop ::
  "world \<Rightarrow> string \<Rightarrow> nat \<Rightarrow> hiveQueryer \<Rightarrow> env \<Rightarrow> error \<times> hiveQueryer \<times> env" where
  "Query_loop w query retries q e =
     (if retries < maxRetries then
        (case getHiveConnection w q e of
           (Inl er, q1, e1) \<Rightarrow>
             if er = EOF \<or> isErrBrokenPipe (Some er) then
               (case closeHiveConnection q1 e1 of
                  (q2, e2) \<Rightarrow> Query_loop w query (Suc retries) q2 e2)
             else (Some er, q1, e1)
         | (Inr hc, q1, e1) \<Rightarrow>
             (case conn_Query w hc query e1 of
                (Some er, e2) \<Rightarrow>
                  if er = EOF \<or> isErrBrokenPipe (Some er) then
                    (case closeHiveConnection q1 e2 of
                       (q2, e3) \<Rightarrow> Query_loop w query (Suc retries) q2 e3)
                  else (Some er, q1, e2)
              | (None, e2) \<Rightarrow> (None, q1, e2)))
      else
        (case closeHiveConnection q e of
           (q1, e1) \<Rightarrow> (Some errUnableToConnect, q1, e1)))"
  by pat_completeness auto
termination
  by (relation "measure (\<lambda>(w, query, retries, q, e). maxRetries - retries)") auto

definition Query :: "world \<Rightarrow> hiveQueryer \<Rightarrow> string \<Rightarrow> env \<Rightarrow> error \<times> hiveQueryer \<times> env" where
  "Query w q query e = Query_loop w query 0 q e"

text \<open>
  The attempt made by one pass through the body of the loop, up to the point where the
  error is examined: the error of \<open>getHiveConnection\<close> or else of the query, and the
  state at that point.
\<close>

definition Query_attempt ::
  "world \<Rightarrow> string \<Rightarrow> hiveQueryer \<Rightarrow> env \<Rightarrow> error \<times> hiveQueryer \<times> env" where
  "Query_attempt w query q e =
     (case getHiveConnection w q e of
        (Inl er, q1, e1) \<Rightarrow> (Some er, q1, e1)
      | (Inr hc, q1, e1) \<Rightarrow>
          (case conn_Query w hc query e1 of (r, e2) \<Rightarrow> (r, q1, e2)))"

definition reconnects :: "error \<Rightarrow> bool" where
  "reconnects er = (er = Some EOF \<or> isErrBrokenPipe er)"

text \<open>
  \<open>attempts_fail w query n q e\<close>: starting from \<open>q\<close> and \<open>e\<close>, each of the next \<open>n\<close>
  attempts, made one after the other with the connection closed in between, ends with
  \<open>io.EOF\<close> or a broken pipe.
\<close>

fun attempts_fail :: "world \<Rightarrow> string \<Rightarrow> nat \<Rightarrow> hiveQueryer \<Rightarrow> env \<Rightarrow> bool" where
  "attempts_fail w query 0 q e = True"
| "attempts_fail w query (Suc n) q e =
     (case Query_attempt w query q e of
        (er, q1, e1) \<Rightarrow>
          reconnects er \<and>
          (case closeHiveConnection q1 e1 of (q2, e2) \<Rightarrow> attempts_fail w query n q2 e2))"

subsection \<open>The operator and its initialized flag\<close>

record Chargeback =
  cfg :: Config
  prestoConn :: "db option"
  prestoDB :: "db option"
  hiveQueryer :: "hiveQueryer option"
  promConn :: "string option"
  initialized :: bool

text \<open>
  \<open>New\<close> returns the error of \<open>rest.InClusterConfig()\<close> if there is one, ends the
  process through \<open>logger.Fatal\<close> on an error of the client set, and otherwise returns
  the operator; the struct literal does not name \<open>initialized\<close>, which is \<open>false\<close>.
\<close>

datatype new_result = NewError err | NewFatal err | NewOk Chargeback

definition New :: "Config \<Rightarrow> error \<Rightarrow> error \<Rightarrow> new_result" where
  "New c inClusterConfigErr newForConfigErr =
     (case inClusterConfigErr of
        Some er \<Rightarrow> NewError er
      | None \<Rightarrow>
          (case newForConfigErr of
             Some er \<Rightarrow> NewFatal er
           | None \<Rightarrow>
               NewOk \<lparr>cfg = c, prestoConn = None, prestoDB = None, hiveQueryer = None,
                      promConn = None, initialized = False\<rparr>))"

definition setInitialized :: "Chargeback \<Rightarrow> Chargeback" where
  "setInitialized c = c\<lparr>initialized := True\<rparr>"

definition isInitialized :: "Chargeback \<Rightarrow> bool" where
  "isInitialized c = initialized c"

text \<open>
  The operations of this file on an operator: the assignments that \<open>Run\<close> makes to its
  fields, and the two methods on the flag. The mutex makes each of the two atomic.
\<close>

datatype chargeback_op =
    SetPrestoDB db
  | SetPrestoConn db
  | SetHiveQueryer hiveQueryer
  | SetPromConn string
  | CallSetInitialized
  | CallIsInitialized

fun apply_op :: "chargeback_op \<Rightarrow> Chargeback \<Rightarrow> Chargeback" where
  "apply_op (SetPrestoDB d) c = c\<lparr>prestoDB := Some d\<rparr>"
| "apply_op (SetPrestoConn d) c = c\<lparr>prestoConn := Some d\<rparr>"
| "apply_op (SetHiveQueryer q) c = c\<lparr>hiveQueryer := Some q\<rparr>"
| "apply_op (SetPromConn a) c = c\<lparr>promConn := Some a\<rparr>"
| "apply_op CallSetInitialized c = setInitialized c"
| "apply_op CallIsInitialized c = c"

fun apply_ops :: "chargeback_op list \<Rightarrow> Chargeback \<Rightarrow> Chargeback" where
  "apply_ops [] c = c"
| "apply_ops (x # xs) c = apply_ops xs (apply_op x c)"

subsection \<open>A world in which Hive and Presto are down\<close>

definition connRefused :: err where
  "connRefused = OpError ''dial'' (Some (SyscallError ''connect'' (Errno 111)))"

definition world_down :: world where
  "world_down =
     \<lparr>hiveConnect = (\<lambda>host i. (0, Some connRefused)),
      sqlOpen = (\<lambda>connStr i. (0, Some connRefused)),
      connQuery = (\<lambda>c query i. None),
      pickStop = (\<lambda>i. False)\<rparr>"

definition env0 :: env where
  "env0 = \<lparr>now = 0, connects = 0, opens = 0, queries = 0, selects = 0, events = []\<rparr>"

text \<open>A world in which every connection attempt succeeds and every query ends with \<open>io.EOF\<close>.\<close>

definition world_eof :: world where
  "world_eof =
     \<lparr>hiveConnect = (\<lambda>host i. (0, None)),
      sqlOpen = (\<lambda>connStr i. (0, None)),
      connQuery = (\<lambda>c query i. Some EOF),
      pickStop = (\<lambda>i. False)\<rparr>"

text \<open>A world in which Hive is up and rejects every query with an error of its own.\<close>

definition world_syntax :: world where
  "world_syntax =
     \<lparr>hiveConnect = (\<lambda>host i. (0, None)),
      sqlOpen = (\<lambda>connStr i. (0, None)),
      connQuery = (\<lambda>c query i. Some (Errorf ''hive: syntax error'' [])),
      pickStop = (\<lambda>i. False)\<rparr>"

text \<open>
  A world in which every connection attempt succeeds, the first query sent ends with a
  broken pipe and every later query succeeds.
\<close>

definition brokenPipe :: err where
  "brokenPipe = OpError ''write'' (Some (Errno EPIPE))"

definition world_pipe :: world where
  "world_pipe =
     \<lparr>hiveConnect = (\<lambda>host i. (0, None)),
      sqlOpen = (\<lambda>connStr i. (0, None)),
      connQuery = (\<lambda>c query i. if i = 0 then Some brokenPipe else None),
      pickStop = (\<lambda>i. False)\<rparr>"

section \<open>Theorems\<close>

subsection \<open>Broken-pipe detection\<close>

text \<open>
  C10. \<open>isErrBrokenPipe\<close> answers true exactly for a \<open>*net.OpError\<close> whose \<open>Err\<close> field
  is the errno \<open>EPIPE\<close> itself. It answers false for \<open>nil\<close>, for \<open>io.EOF\<close>, for an
  \<open>EPIPE\<close> that is not inside an \<open>OpError\<close> (bare, or wrapped in an \<open>*os.SyscallError\<close>),
  and for an \<open>OpError\<close> whose \<open>Err\<close> is a wrapped \<open>EPIPE\<close>, another errno or \<open>nil\<close>.
\<close>

theorem isErrBrokenPipe_exact_shape:
  "isErrBrokenPipe e = (\<exists>opn. e = Some (OpError opn (Some (Errno EPIPE))))
   \<and> \<not> isErrBrokenPipe None
   \<and> \<not> isErrBrokenPipe (Some EOF)
   \<and> \<not> isErrBrokenPipe (Some (Errno EPIPE))
   \<and> \<not> isErrBrokenPipe (Some (SyscallError call (Errno EPIPE)))
   \<and> \<not> isErrBrokenPipe (Some (OpError opn' (Some (SyscallError call (Errno EPIPE)))))
   \<and> \<not> isErrBrokenPipe (Some (OpError opn' None))
   \<and> (n \<noteq> EPIPE \<longrightarrow> \<not> isErrBrokenPipe (Some (OpError opn' (Some (Errno n)))))"
  by (auto simp: isErrBrokenPipe_def split: option.splits err.splits)

theorem isErrBrokenPipe_exact_shape_witness:
  "isErrBrokenPipe (Some (OpError ''write'' (Some (Errno 32))))
   \<and> \<not> isErrBrokenPipe (Some (OpError ''write'' (Some (Errno 104))))
   \<and> \<not> isErrBrokenPipe (Some (SyscallError ''write'' (Errno 32)))
   \<and> \<not> isErrBrokenPipe (Some (OpError ''write'' (Some (SyscallError ''write'' (Errno 32)))))"
  using isErrBrokenPipe_exact_shape
    [of "Some (OpError ''write'' (Some (Errno 32)))" "''write''" "''write''" 104]
  by (simp add: EPIPE_def)

subsection \<open>The retry policy of the work queues\<close>

text \<open>
  C4. With a non-nil error, \<open>handleErr\<close> makes exactly one mutating call on the queue:
  \<open>AddRateLimited(key)\<close> when \<open>NumRequeues(key) < 5\<close>, and \<open>Forget(key)\<close> otherwise, in
  which case the key is not put back on the queue.
\<close>

theorem handleErr_requeue_policy:
  "calls (handleErr (Some e) objType k queue) =
     calls queue @ [if NumRequeues queue k < 5 then CallAddRateLimited k else CallForget k]
   \<and> (handleErr (Some e) objType k queue = AddRateLimited k queue) = (NumRequeues queue k < 5)
   \<and> (handleErr (Some e) objType k queue = Forget k queue) = (\<not> NumRequeues queue k < 5)"
proof -
  have neq: "AddRateLimited k queue \<noteq> Forget k queue"
  proof
    assume "AddRateLimited k queue = Forget k queue"
    then have "calls (AddRateLimited k queue) = calls (Forget k queue)" by simp
    then show False by (simp add: AddRateLimited_def Forget_def)
  qed
  show ?thesis
    using neq by (auto simp: handleErr_def AddRateLimited_def Forget_def)
qed

theorem handleErr_requeue_policy_witness:
  "calls (handleErr (Some EOF) ''report'' ''ns/r'' newQueue) = [CallAddRateLimited ''ns/r'']
   \<and> calls (handleErr (Some EOF) ''report'' ''ns/r''
        (newQueue\<lparr>requeues := (\<lambda>k. 5)\<rparr>)) = [CallForget ''ns/r'']"
  using handleErr_requeue_policy [of EOF "''report''" "''ns/r''" newQueue, THEN conjunct1]
    handleErr_requeue_policy [of EOF "''report''" "''ns/r''" "newQueue\<lparr>requeues := (\<lambda>k. 5)\<rparr>",
      THEN conjunct1]
  by (simp add: newQueue_def NumRequeues_def)

subsection \<open>The fibers started by \<open>startWorkers\<close>\<close>

lemma startWorkers_loop_2:
  "startWorkers_loop 0 2 wg st =
     go (ScheduledReportWorker 1) wg (wg_Add wg 1
     (go (ReportWorker 1) wg (wg_Add wg 1
     (go (ReportGenerationQueryWorker 1) wg (wg_Add wg 1
     (go (ReportDataSourceWorker 1) wg (wg_Add wg 1
     (go (ScheduledReportWorker 0) wg (wg_Add wg 1
     (go (ReportWorker 0) wg (wg_Add wg 1
     (go (ReportGenerationQueryWorker 0) wg (wg_Add wg 1
     (go (ReportDataSourceWorker 0) wg (wg_Add wg 1 st)))))))))))))))"
proof -
  have two: "(2::nat) = Suc (Suc 0)" by simp
  show ?thesis
    unfolding two
    by (simp add: Let_def)
qed

lemma running_startWorkers:
  "running (startWorkers c wg st) =
     running st @
     map (\<lambda>f. (f, wg))
       ([PrestoTableWorker,
         ReportDataSourceWorker 0, ReportGenerationQueryWorker 0, ReportWorker 0,
         ScheduledReportWorker 0,
         ReportDataSourceWorker 1, ReportGenerationQueryWorker 1, ReportWorker 1,
         ScheduledReportWorker 1,
         ScheduledReportRunner] @ (if DisablePromsum c then [] else [PromsumCollector]))"
  by (simp add: startWorkers_def startWorkers_loop_2 Let_def go_def wg_Add_def
      del: startWorkers_loop.simps)

lemma wgs_startWorkers:
  "wgs (startWorkers c wg st) =
     (wgs st)(wg := wgs st wg + (if DisablePromsum c then 10 else 11))"
  by (simp add: startWorkers_def startWorkers_loop_2 Let_def go_def wg_Add_def fun_eq_iff
      del: startWorkers_loop.simps)

lemma started_fibers_eq:
  "started_fibers c =
     [PrestoTableWorker,
      ReportDataSourceWorker 0, ReportGenerationQueryWorker 0, ReportWorker 0,
      ScheduledReportWorker 0,
      ReportDataSourceWorker 1, ReportGenerationQueryWorker 1, ReportWorker 1,
      ScheduledReportWorker 1,
      ScheduledReportRunner] @ (if DisablePromsum c then [] else [PromsumCollector])"
  by (simp add: started_fibers_def Run_startWorkers_def running_startWorkers Let_def)

text \<open>
  C5, as stated, fails: with the Promsum collector enabled \<open>startWorkers\<close> starts 11
  fibers, 9 of them queue workers; the StorageLocation and ReportPrometheusQuery queues
  get no worker, and the PrestoTable queue gets one worker, not three.
\<close>

theorem startWorkers_not_fifteen:
  "length (started_fibers config0) = 11
   \<and> length (workers (started_fibers config0)) = 9
   \<and> length (workers (started_fibers config0)) \<noteq> 15
   \<and> workers_of StorageLocation (started_fibers config0) = 0
   \<and> workers_of ReportPrometheusQuery (started_fibers config0) = 0
   \<and> workers_of PrestoTable (started_fibers config0) = 1"
  by (simp add: started_fibers_eq config0_def workers_def workers_of_def)

text \<open>
  C5, amended. \<open>startWorkers\<close> starts exactly 2 worker fibers for each of the four kinds
  ReportDataSource, ReportGenerationQuery, Report and ScheduledReport, and exactly 1
  PrestoTable worker: 9 worker fibers in all, none of them for the ReportPrometheusQuery
  or the StorageLocation queue. Besides the workers it starts the scheduled runner and,
  unless \<open>DisablePromsum\<close> is set, the Promsum collector: 11 fibers, or 10.
\<close>

theorem startWorkers_fibers:
  "workers_of ReportDataSource (started_fibers c) = 2
   \<and> workers_of ReportGenerationQuery (started_fibers c) = 2
   \<and> workers_of Report (started_fibers c) = 2
   \<and> workers_of ScheduledReport (started_fibers c) = 2
   \<and> workers_of PrestoTable (started_fibers c) = 1
   \<and> workers_of ReportPrometheusQuery (started_fibers c) = 0
   \<and> workers_of StorageLocation (started_fibers c) = 0
   \<and> length (workers (started_fibers c)) = 9
   \<and> length (started_fibers c) = (if DisablePromsum c then 10 else 11)
   \<and> distinct (started_fibers c)
   \<and> ScheduledReportRunner \<in> set (started_fibers c)
   \<and> (PromsumCollector \<in> set (started_fibers c)) = (\<not> DisablePromsum c)"
  by (simp add: started_fibers_eq workers_def workers_of_def)

theorem startWorkers_fibers_witness:
  "workers_of Report (started_fibers config0) = 2
   \<and> workers_of PrestoTable (started_fibers config0) = 1
   \<and> length (workers (started_fibers config0)) = 9
   \<and> length (started_fibers (config0\<lparr>DisablePromsum := True\<rparr>)) = 10"
  using startWorkers_fibers [of config0]
    startWorkers_fibers [of "config0\<lparr>DisablePromsum := True\<rparr>"]
  by simp

subsection \<open>Waiting for the workers\<close>

lemma fiber_exit_keeps:
  assumes "\<forall>p \<in> set (running st). snd p = startWorkers_wg" and "wgs st Run_wg = 0"
  shows "(\<forall>p \<in> set (running (fiber_exit f st)). snd p = startWorkers_wg)
         \<and> wgs (fiber_exit f st) Run_wg = 0"
proof (cases "map_of (running st) f")
  case None
  with assms show ?thesis by (simp add: fiber_exit_def)
next
  case (Some a)
  then have "(f, a) \<in> set (running st)" by (rule map_of_SomeD)
  with assms(1) have "a = startWorkers_wg" by auto
  with Some assms show ?thesis
    by (simp add: fiber_exit_def wg_Done_def wg_Add_def Run_wg_def startWorkers_wg_def)
qed

lemma fibers_exit_keeps:
  "\<forall>p \<in> set (running st). snd p = startWorkers_wg \<Longrightarrow> wgs st Run_wg = 0
   \<Longrightarrow> wgs (fibers_exit fs st) Run_wg = 0"
proof (induction fs arbitrary: st)
  case Nil
  then show ?case by simp
next
  case (Cons f fs)
  from fiber_exit_keeps [OF Cons.prems, of f] show ?case
    by (simp add: Cons.IH)
qed

text \<open>
  C2. \<open>Run\<close> hands its wait group to \<open>startWorkers\<close> by value, so every \<open>Add\<close> and
  \<open>Done\<close> of the workers acts on the copy. The counter of the wait group that \<open>Run\<close>
  waits on is zero after \<open>startWorkers\<close> and stays zero whichever fibers have exited:
  \<open>wg.Wait()\<close> returns, and \<open>Run\<close> with it, while all 10 or 11 fibers are still running.
\<close>

theorem Run_wait_misses_workers:
  "Run_returns (fibers_exit exited (Run_startWorkers c))
   \<and> Run_returns (Run_startWorkers c)
   \<and> wgs (Run_startWorkers c) Run_wg = 0
   \<and> wgs (Run_startWorkers c) startWorkers_wg = int (length (running (Run_startWorkers c)))
   \<and> length (running (Run_startWorkers c)) = (if DisablePromsum c then 10 else 11)"
proof -
  have r: "\<forall>p \<in> set (running (Run_startWorkers c)). snd p = startWorkers_wg"
    by (simp add: Run_startWorkers_def running_startWorkers Let_def)
  have z: "wgs (Run_startWorkers c) Run_wg = 0"
    by (simp add: Run_startWorkers_def wgs_startWorkers Let_def Run_wg_def startWorkers_wg_def)
  have "wgs (fibers_exit exited (Run_startWorkers c)) Run_wg = 0"
    using r z by (rule fibers_exit_keeps)
  moreover have "wgs (Run_startWorkers c) startWorkers_wg
      = int (length (running (Run_startWorkers c)))"
    by (simp add: Run_startWorkers_def wgs_startWorkers running_startWorkers Let_def)
  moreover have "length (running (Run_startWorkers c)) = (if DisablePromsum c then 10 else 11)"
    by (simp add: Run_startWorkers_def running_startWorkers Let_def)
  ultimately show ?thesis
    using z by (simp add: Run_returns_def wg_Wait_returns_def)
qed

theorem Run_wait_misses_workers_witness:
  "Run_returns (Run_startWorkers config0)
   \<and> length (running (Run_startWorkers config0)) = 11
   \<and> Run_returns (fibers_exit [PrestoTableWorker, ReportWorker 0] (Run_startWorkers config0))"
  using Run_wait_misses_workers [of "[PrestoTableWorker, ReportWorker 0]" config0]
  by (simp add: config0_def)

subsection \<open>Watch events\<close>

text \<open>
  C6, as stated, fails: a delete event of a Report enqueues nothing, and neither does an
  add event of a StorageLocation, whose informer has no handler.
\<close>

theorem informer_event_not_enqueued:
  "calls (informer_event (\<lambda>ob qs. qs) Report (Deleted (Resource ''ns'' ''r''))
            (\<lambda>k. newQueue) Report) = []
   \<and> calls (informer_event (\<lambda>ob qs. qs) StorageLocation (Added (Resource ''ns'' ''s''))
            (\<lambda>k. newQueue) StorageLocation) = []"
  by (simp add: informer_event_def onEvent_def newQueue_def)

text \<open>
  C6, amended. For the Report, ScheduledReport, ReportDataSource and
  ReportGenerationQuery informers, every add event and every update event of a resource
  makes exactly one call \<open>Add(namespace/name)\<close> on the queue of that kind, with the
  namespace and name of the added, respectively the current, resource. A delete event of a
  Report, ReportDataSource or ReportGenerationQuery enqueues nothing; a delete event of a
  ScheduledReport is handed to \<open>handleScheduledReportDeleted\<close>. The
  ReportPrometheusQuery, StorageLocation and PrestoTable informers have no handler: no
  event of theirs enqueues anything. An object that yields no key is not enqueued.
\<close>

theorem informer_event_enqueues:
  "(k \<in> {Report, ScheduledReport, ReportDataSource, ReportGenerationQuery} \<longrightarrow>
      informer_event h k (Added (Resource ns n)) qs = qs(k := Add_q (ns @ ''/'' @ n) (qs k))
      \<and> informer_event h k (Updated old (Resource ns n)) qs
          = qs(k := Add_q (ns @ ''/'' @ n) (qs k))
      \<and> informer_event h k (Added Opaque) qs = qs
      \<and> informer_event h k (Updated old Opaque) qs = qs)
   \<and> (k \<in> {Report, ReportDataSource, ReportGenerationQuery} \<longrightarrow>
      informer_event h k (Deleted ob) qs = qs)
   \<and> (k \<in> {ReportPrometheusQuery, StorageLocation, PrestoTable} \<longrightarrow>
      informer_event h k ev qs = qs)
   \<and> informer_event h ScheduledReport (Deleted ob) qs = h ob qs"
  by (cases k)
    (simp_all add: informer_event_def onEvent_def enqueueKey_def MetaNamespaceKeyFunc_def)

theorem informer_event_enqueues_witness:
  "calls (informer_event (\<lambda>ob qs. qs) Report (Added (Resource ''ns'' ''r''))
            (\<lambda>k. newQueue) Report) = [CallAdd ''ns/r'']
   \<and> calls (informer_event (\<lambda>ob qs. qs) ScheduledReport
            (Updated (Resource ''ns'' ''old'') (Resource ''ns'' ''s''))
            (\<lambda>k. newQueue) ScheduledReport) = [CallAdd ''ns/s'']
   \<and> informer_event (\<lambda>ob qs. qs) ReportDataSource (Deleted (Resource ''ns'' ''d''))
            (\<lambda>k. newQueue) = (\<lambda>k. newQueue)
   \<and> informer_event (\<lambda>ob qs. qs) PrestoTable (Added (Resource ''ns'' ''t''))
            (\<lambda>k. newQueue) = (\<lambda>k. newQueue)"
  using informer_event_enqueues [of Report "\<lambda>ob qs. qs" "''ns''" "''r''" "\<lambda>k. newQueue"]
    informer_event_enqueues [of ScheduledReport "\<lambda>ob qs. qs" "''ns''" "''s''" "\<lambda>k. newQueue"
      "Resource ''ns'' ''old''"]
    informer_event_enqueues [of ReportDataSource "\<lambda>ob qs. qs" _ _ "\<lambda>k. newQueue" _
      "Resource ''ns'' ''d''"]
    informer_event_enqueues [of PrestoTable "\<lambda>ob qs. qs" _ _ "\<lambda>k. newQueue" _ _
      "Added (Resource ''ns'' ''t'')"]
  by (simp add: Add_q_def newQueue_def)

subsection \<open>The connection loops\<close>

declare newHiveConn_loop.simps [simp del] newPrestoConn_loop.simps [simp del] Query_loop.simps [simp del]

lemma select_tick_now:
  "fst (select_tick_stop w d stop e) = Tick \<Longrightarrow>
     snd (select_tick_stop w d stop e) = e\<lparr>now := now e + d, selects := Suc (selects e)\<rparr>"
  by (auto simp: select_tick_stop_def Let_def split: chan.splits option.splits if_splits)

lemma select_connects [simp]:
  "connects (snd (select_tick_stop w d stop e)) = connects e"
  "opens (snd (select_tick_stop w d stop e)) = opens e"
  by (auto simp: select_tick_stop_def Let_def split: chan.splits option.splits if_splits)

lemma select_not_closed:
  "open_until stop (now e + d) \<Longrightarrow>
     select_tick_stop w d stop e = (Tick, e\<lparr>now := now e + d, selects := Suc (selects e)\<rparr>)"
  by (auto simp: select_tick_stop_def open_until_def Let_def
      split: chan.splits option.splits if_splits)

lemma newHiveConn_loop_fails:
  "\<forall>i. snd (hiveConnect w (hiveHost q) i) \<noteq> None \<Longrightarrow>
     \<exists>er. fst (newHiveConn_loop w q startTime e) = Inl er"
proof (induction w q startTime e rule: newHiveConn_loop.induct)
  case (1 w q startTime e)
  define r where "r = hiveConnect w (hiveHost q) (connects e)"
  define e1 where "e1 = e\<lparr>now := now e + fst r, connects := Suc (connects e),
                 events := events e @ [EvConnect (connects e)]\<rparr>"
  define s where "s = select_tick_stop w connBackoff (stopCh q) e1"
  from "1.prems" obtain er where Some: "snd r = Some er"
    by (auto simp: r_def)
  show ?case
  proof (cases "now e1 - startTime > maxConnWaitTime")
    case True
    with Some show ?thesis
      by (subst newHiveConn_loop.simps) (simp add: Let_def r_def e1_def)
  next
    case False
    show ?thesis
    proof (cases "fst s")
      case Stop
      with Some False show ?thesis
        by (subst newHiveConn_loop.simps) (simp add: Let_def r_def e1_def s_def)
    next
      case Tick
      have "newHiveConn_loop w q startTime e = newHiveConn_loop w q startTime (snd s)"
        using Some False Tick
        by (subst newHiveConn_loop.simps) (simp add: Let_def r_def e1_def s_def)
      then show ?thesis
        using "1.IH" [OF r_def e1_def Some False s_def Tick "1.prems"] by simp
    qed
  qed
qed

lemma newHiveConn_loop_bound:
  "connects (snd (newHiveConn_loop w q startTime e)) \<le>
     connects e + (if startTime + maxConnWaitTime < now e then 1
                   else (startTime + maxConnWaitTime - now e) div connBackoff + 2)"
proof (induction w q startTime e rule: newHiveConn_loop.induct)
  case (1 w q startTime e)
  define r where "r = hiveConnect w (hiveHost q) (connects e)"
  define e1 where "e1 = e\<lparr>now := now e + fst r, connects := Suc (connects e),
                 events := events e @ [EvConnect (connects e)]\<rparr>"
  define s where "s = select_tick_stop w connBackoff (stopCh q) e1"
  have B: "0 < connBackoff" by (simp add: connBackoff_def second_def)
  show ?case
  proof (cases "snd r")
    case None
    then show ?thesis
      by (subst newHiveConn_loop.simps) (simp add: Let_def r_def)
  next
    case (Some er)
    show ?thesis
    proof (cases "now e1 - startTime > maxConnWaitTime")
      case True
      with Some show ?thesis
        by (subst newHiveConn_loop.simps) (simp add: Let_def r_def e1_def)
    next
      case False
      note notimeout = this
      show ?thesis
      proof (cases "fst s")
        case Stop
        with Some notimeout show ?thesis
          by (subst newHiveConn_loop.simps) (simp add: Let_def r_def e1_def s_def)
      next
        case Tick
        have eq: "newHiveConn_loop w q startTime e = newHiveConn_loop w q startTime (snd s)"
          using Some notimeout Tick
          by (subst newHiveConn_loop.simps) (simp add: Let_def r_def e1_def s_def)
        have IH: "connects (snd (newHiveConn_loop w q startTime (snd s))) \<le>
            connects (snd s) + (if startTime + maxConnWaitTime < now (snd s) then 1
                   else (startTime + maxConnWaitTime - now (snd s)) div connBackoff + 2)"
          using "1.IH" [OF r_def e1_def Some notimeout s_def Tick] .
        have n2: "now (snd s) = now e1 + connBackoff"
          using Tick by (simp add: s_def select_tick_now)
        have c2: "connects (snd s) = Suc (connects e)"
          by (simp add: s_def e1_def)
        have le1: "now e1 \<le> startTime + maxConnWaitTime" using notimeout by simp
        have ge: "now e \<le> now e1" by (simp add: e1_def)
        have nolate: "\<not> startTime + maxConnWaitTime < now e" using le1 ge by simp
        have step: "(if startTime + maxConnWaitTime < now (snd s) then 1
                   else (startTime + maxConnWaitTime - now (snd s)) div connBackoff + 2) + 1
               \<le> (startTime + maxConnWaitTime - now e) div connBackoff + 2"
        proof (cases "startTime + maxConnWaitTime < now (snd s)")
          case True
          then show ?thesis by simp
        next
          case False
          then have "connBackoff \<le> startTime + maxConnWaitTime - now e1"
            using n2 by simp
          then have "(startTime + maxConnWaitTime - now e1 - connBackoff) div connBackoff + 1
              = (startTime + maxConnWaitTime - now e1) div connBackoff"
            using B by (simp add: le_div_geq)
          moreover have "(startTime + maxConnWaitTime - now e1) div connBackoff
              \<le> (startTime + maxConnWaitTime - now e) div connBackoff"
            using ge by (simp add: div_le_mono)
          moreover have "startTime + maxConnWaitTime - now (snd s)
              = startTime + maxConnWaitTime - now e1 - connBackoff"
            using n2 by simp
          ultimately show ?thesis using False by simp
        qed
        show ?thesis
          using IH step nolate by (simp add: eq c2)
      qed
    qed
  qed
qed

lemma newHiveConn_bound: "connects (snd (newHiveConn w q e)) \<le> connects e + 14"
proof -
  have "maxConnWaitTime div connBackoff = 12"
    by (simp add: maxConnWaitTime_def connBackoff_def minute_def second_def)
  then show ?thesis
    using newHiveConn_loop_bound [of w q "now e" e]
    by (simp add: newHiveConn_def Let_def)
qed

lemma newPrestoConn_loop_fails:
  "\<forall>i. snd (sqlOpen w connStr i) \<noteq> None \<Longrightarrow>
     \<exists>er. fst (newPrestoConn_loop w connStr stop startTime e) = Inl er"
proof (induction w connStr stop startTime e rule: newPrestoConn_loop.induct)
  case (1 w connStr stop startTime e)
  define r where "r = sqlOpen w connStr (opens e)"
  define e1 where "e1 = e\<lparr>now := now e + fst r, opens := Suc (opens e),
                 events := events e @ [EvOpen (opens e)]\<rparr>"
  define s where "s = select_tick_stop w connBackoff stop e1"
  from "1.prems" obtain er where Some: "snd r = Some er"
    by (auto simp: r_def)
  show ?case
  proof (cases "now e1 - startTime > maxConnWaitTime")
    case True
    with Some show ?thesis
      by (subst newPrestoConn_loop.simps) (simp add: Let_def r_def e1_def)
  next
    case False
    show ?thesis
    proof (cases "fst s")
      case Stop
      with Some False show ?thesis
        by (subst newPrestoConn_loop.simps) (simp add: Let_def r_def e1_def s_def)
    next
      case Tick
      have "newPrestoConn_loop w connStr stop startTime e = newPrestoConn_loop w connStr stop startTime (snd s)"
        using Some False Tick
        by (subst newPrestoConn_loop.simps) (simp add: Let_def r_def e1_def s_def)
      then show ?thesis
        using "1.IH" [OF r_def e1_def Some False s_def Tick "1.prems"] by simp
    qed
  qed
qed

lemma newPrestoConn_loop_bound:
  "opens (snd (newPrestoConn_loop w connStr stop startTime e)) \<le>
     opens e + (if startTime + maxConnWaitTime < now e then 1
                   else (startTime + maxConnWaitTime - now e) div connBackoff + 2)"
proof (induction w connStr stop startTime e rule: newPrestoConn_loop.induct)
  case (1 w connStr stop startTime e)
  define r where "r = sqlOpen w connStr (opens e)"
  define e1 where "e1 = e\<lparr>now := now e + fst r, opens := Suc (opens e),
                 events := events e @ [EvOpen (opens e)]\<rparr>"
  define s where "s = select_tick_stop w connBackoff stop e1"
  have B: "0 < connBackoff" by (simp add: connBackoff_def second_def)
  show ?case
  proof (cases "snd r")
    case None
    then show ?thesis
      by (subst newPrestoConn_loop.simps) (simp add: Let_def r_def)
  next
    case (Some er)
    show ?thesis
    proof (cases "now e1 - startTime > maxConnWaitTime")
      case True
      with Some show ?thesis
        by (subst newPrestoConn_loop.simps) (simp add: Let_def r_def e1_def)
    next
      case False
      note notimeout = this
      show ?thesis
      proof (cases "fst s")
        case Stop
        with Some notimeout show ?thesis
          by (subst newPrestoConn_loop.simps) (simp add: Let_def r_def e1_def s_def)
      next
        case Tick
        have eq: "newPrestoConn_loop w connStr stop startTime e = newPrestoConn_loop w connStr stop startTime (snd s)"
          using Some notimeout Tick
          by (subst newPrestoConn_loop.simps) (simp add: Let_def r_def e1_def s_def)
        have IH: "opens (snd (newPrestoConn_loop w connStr stop startTime (snd s))) \<le>
            opens (snd s) + (if startTime + maxConnWaitTime < now (snd s) then 1
                   else (startTime + maxConnWaitTime - now (snd s)) div connBackoff + 2)"
          using "1.IH" [OF r_def e1_def Some notimeout s_def Tick] .
        have n2: "now (snd s) = now e1 + connBackoff"
          using Tick by (simp add: s_def select_tick_now)
        have c2: "opens (snd s) = Suc (opens e)"
          by (simp add: s_def e1_def)
        have le1: "now e1 \<le> startTime + maxConnWaitTime" using notimeout by simp
        have ge: "now e \<le> now e1" by (simp add: e1_def)
        have nolate: "\<not> startTime + maxConnWaitTime < now e" using le1 ge by simp
        have step: "(if startTime + maxConnWaitTime < now (snd s) then 1
                   else (startTime + maxConnWaitTime - now (snd s)) div connBackoff + 2) + 1
               \<le> (startTime + maxConnWaitTime - now e) div connBackoff + 2"
        proof (cases "startTime + maxConnWaitTime < now (snd s)")
          case True
          then show ?thesis by simp
        next
          case False
          then have "connBackoff \<le> startTime + maxConnWaitTime - now e1"
            using n2 by simp
          then have "(startTime + maxConnWaitTime - now e1 - connBackoff) div connBackoff + 1
              = (startTime + maxConnWaitTime - now e1) div connBackoff"
            using B by (simp add: le_div_geq)
          moreover have "(startTime + maxConnWaitTime - now e1) div connBackoff
              \<le> (startTime + maxConnWaitTime - now e) div connBackoff"
            using ge by (simp add: div_le_mono)
          moreover have "startTime + maxConnWaitTime - now (snd s)
              = startTime + maxConnWaitTime - now e1 - connBackoff"
            using n2 by simp
          ultimately show ?thesis using False by simp
        qed
        show ?thesis
          using IH step nolate by (simp add: eq c2)
      qed
    qed
  qed
qed


lemma newPrestoConn_bound: "opens (snd (newPrestoConn w c stop e)) \<le> opens e + 14"
proof -
  have "maxConnWaitTime div connBackoff = 12"
    by (simp add: maxConnWaitTime_def connBackoff_def minute_def second_def)
  then show ?thesis
    using newPrestoConn_loop_bound [of w _ stop "now e" e]
    by (simp add: newPrestoConn_def Let_def)
qed

lemma newHiveConn_loop_timeout:
  "hiveConnect w (hiveHost q) (connects e) = (d, Some er) \<Longrightarrow>
   maxConnWaitTime < now e + d - startTime \<Longrightarrow>
     newHiveConn_loop w q startTime e =
       (Inl er, e\<lparr>now := now e + d, connects := Suc (connects e),
                  events := events e @ [EvConnect (connects e)]\<rparr>)"
  by (subst newHiveConn_loop.simps) (simp add: Let_def)

lemma newHiveConn_loop_backoff:
  "hiveConnect w (hiveHost q) (connects e) = (d, Some er) \<Longrightarrow>
   \<not> maxConnWaitTime < now e + d - startTime \<Longrightarrow>
   open_until (stopCh q) (now e + d + connBackoff) \<Longrightarrow>
     newHiveConn_loop w q startTime e =
       newHiveConn_loop w q startTime
         (e\<lparr>now := now e + d + connBackoff, connects := Suc (connects e),
            selects := Suc (selects e), events := events e @ [EvConnect (connects e)]\<rparr>)"
proof -
  assume a: "hiveConnect w (hiveHost q) (connects e) = (d, Some er)"
    "\<not> maxConnWaitTime < now e + d - startTime"
    "open_until (stopCh q) (now e + d + connBackoff)"
  have sel: "select_tick_stop w connBackoff (stopCh q)
      (e\<lparr>now := now e + d, connects := Suc (connects e),
         events := events e @ [EvConnect (connects e)]\<rparr>) =
      (Tick, e\<lparr>now := now e + d + connBackoff, connects := Suc (connects e),
            selects := Suc (selects e), events := events e @ [EvConnect (connects e)]\<rparr>)"
    using a(3) by (simp add: select_not_closed)
  show ?thesis
    using a(1,2) by (subst newHiveConn_loop.simps) (simp add: Let_def sel)
qed

lemma newHiveConn_loop_stop:
  "hiveConnect w (hiveHost q) (connects e) = (d, Some er) \<Longrightarrow>
   \<not> maxConnWaitTime < now e + d - startTime \<Longrightarrow>
   stopCh q = Chan (Some closed) \<Longrightarrow> closed < now e + d + connBackoff \<Longrightarrow>
     newHiveConn_loop w q startTime e =
       (Inl (Errorf ''got shutdown signal, closing hive connection'' []),
        e\<lparr>now := max (now e + d) closed, connects := Suc (connects e),
          selects := Suc (selects e), events := events e @ [EvConnect (connects e)]\<rparr>)"
  by (subst newHiveConn_loop.simps)
    (simp add: Let_def select_tick_stop_def)

lemma newPrestoConn_loop_timeout:
  "sqlOpen w connStr (opens e) = (d, Some er) \<Longrightarrow>
   maxConnWaitTime < now e + d - startTime \<Longrightarrow>
     newPrestoConn_loop w connStr stop startTime e =
       (Inl (Errorf ''failed to connect to presto: %v'' [er]),
        e\<lparr>now := now e + d, opens := Suc (opens e),
          events := events e @ [EvOpen (opens e)]\<rparr>)"
  by (subst newPrestoConn_loop.simps) (simp add: Let_def)

lemma newPrestoConn_loop_backoff:
  "sqlOpen w connStr (opens e) = (d, Some er) \<Longrightarrow>
   \<not> maxConnWaitTime < now e + d - startTime \<Longrightarrow>
   open_until stop (now e + d + connBackoff) \<Longrightarrow>
     newPrestoConn_loop w connStr stop startTime e =
       newPrestoConn_loop w connStr stop startTime
         (e\<lparr>now := now e + d + connBackoff, opens := Suc (opens e),
            selects := Suc (selects e), events := events e @ [EvOpen (opens e)]\<rparr>)"
proof -
  assume a: "sqlOpen w connStr (opens e) = (d, Some er)"
    "\<not> maxConnWaitTime < now e + d - startTime"
    "open_until stop (now e + d + connBackoff)"
  have sel: "select_tick_stop w connBackoff stop
      (e\<lparr>now := now e + d, opens := Suc (opens e),
         events := events e @ [EvOpen (opens e)]\<rparr>) =
      (Tick, e\<lparr>now := now e + d + connBackoff, opens := Suc (opens e),
            selects := Suc (selects e), events := events e @ [EvOpen (opens e)]\<rparr>)"
    using a(3) by (simp add: select_not_closed)
  show ?thesis
    using a(1,2) by (subst newPrestoConn_loop.simps) (simp add: Let_def sel)
qed

lemma newPrestoConn_loop_stop:
  "sqlOpen w connStr (opens e) = (d, Some er) \<Longrightarrow>
   \<not> maxConnWaitTime < now e + d - startTime \<Longrightarrow>
   closed < now e + d + connBackoff \<Longrightarrow>
     newPrestoConn_loop w connStr (Chan (Some closed)) startTime e =
       (Inl (Errorf ''got shutdown signal, closing Presto connection'' []),
        e\<lparr>now := max (now e + d) closed, opens := Suc (opens e),
          selects := Suc (selects e), events := events e @ [EvOpen (opens e)]\<rparr>)"
  by (subst newPrestoConn_loop.simps)
    (simp add: Let_def select_tick_stop_def)

lemma never_closed_open: "never_closed stop \<Longrightarrow> open_until stop t"
  by (auto simp: never_closed_def open_until_def split: chan.splits option.splits)

lemma newHiveConn_loop_summary:
  assumes fail: "\<forall>i. snd (hiveConnect w (hiveHost q) i) \<noteq> None"
    and nc: "never_closed (stopCh q)"
  shows "connects e < connects (snd (newHiveConn_loop w q startTime e))
   \<and> fst (newHiveConn_loop w q startTime e) =
       Inl (the (snd (hiveConnect w (hiveHost q)
              (connects (snd (newHiveConn_loop w q startTime e)) - 1))))
   \<and> now (snd (newHiveConn_loop w q startTime e)) =
       now e + (\<Sum>i = connects e..<connects (snd (newHiveConn_loop w q startTime e)).
                 fst (hiveConnect w (hiveHost q) i))
         + connBackoff * (connects (snd (newHiveConn_loop w q startTime e)) - connects e - 1)
   \<and> maxConnWaitTime < now (snd (newHiveConn_loop w q startTime e)) - startTime
   \<and> now (snd (newHiveConn_loop w q startTime e)) \<le>
       max (now e) (startTime + maxConnWaitTime + connBackoff)
         + fst (hiveConnect w (hiveHost q)
              (connects (snd (newHiveConn_loop w q startTime e)) - 1))
   \<and> selects (snd (newHiveConn_loop w q startTime e)) =
       selects e + (connects (snd (newHiveConn_loop w q startTime e)) - connects e - 1)"
  using fail nc
proof (induction w q startTime e rule: newHiveConn_loop.induct)
  case (1 w q startTime e)
  define r where "r = hiveConnect w (hiveHost q) (connects e)"
  define e1 where "e1 = e\<lparr>now := now e + fst r, connects := Suc (connects e),
                 events := events e @ [EvConnect (connects e)]\<rparr>"
  define s where "s = select_tick_stop w connBackoff (stopCh q) e1"
  from "1.prems" obtain er where Some: "snd r = Some er"
    by (auto simp: r_def)
  show ?case
  proof (cases "now e1 - startTime > maxConnWaitTime")
    case True
    have eq: "newHiveConn_loop w q startTime e = (Inl er, e1)"
      using Some True by (subst newHiveConn_loop.simps) (simp add: Let_def r_def e1_def)
    show ?thesis
      unfolding eq using True Some by (simp add: e1_def r_def)
  next
    case False
    have sel: "s = (Tick, e1\<lparr>now := now e1 + connBackoff, selects := Suc (selects e1)\<rparr>)"
      unfolding s_def using never_closed_open [OF "1.prems"(2)]
      by (simp add: select_not_closed)
    then have Tick: "fst s = Tick" by simp
    have eq: "newHiveConn_loop w q startTime e = newHiveConn_loop w q startTime (snd s)"
      using Some False Tick
      by (subst newHiveConn_loop.simps) (simp add: Let_def r_def e1_def s_def)
    define e' where "e' = snd (newHiveConn_loop w q startTime (snd s))"
    define dl where "dl = fst (hiveConnect w (hiveHost q) (connects e' - 1))"
    define S where
      "S = (\<Sum>i = Suc (connects e)..<connects e'. fst (hiveConnect w (hiveHost q) i))"
    have c2: "connects (snd s) = Suc (connects e)" by (simp add: sel e1_def)
    have n2: "now (snd s) = now e + fst r + connBackoff" by (simp add: sel e1_def)
    have s2: "selects (snd s) = Suc (selects e)" by (simp add: sel e1_def)
    note IH = "1.IH" [OF r_def e1_def Some False s_def Tick "1.prems",
        folded e'_def, unfolded c2 n2 s2, folded dl_def S_def]
    have le1: "now e + fst r \<le> startTime + maxConnWaitTime" using False by (simp add: e1_def)
    from IH have lt: "Suc (connects e) < connects e'" by blast
    then obtain k where k: "connects e' = Suc (Suc (connects e)) + k"
      using less_iff_Suc_add by auto
    have sum: "(\<Sum>i = connects e..<connects e'. fst (hiveConnect w (hiveHost q) i)) = fst r + S"
      using lt by (simp add: sum.atLeast_Suc_lessThan r_def S_def)
    have m1: "connBackoff * (connects e' - connects e - 1) = connBackoff + connBackoff * k"
      by (simp add: k)
    have m2: "connBackoff * (connects e' - Suc (connects e) - 1) = connBackoff * k"
      by (simp add: k)
    have d1: "connects e' - connects e - 1 = Suc k" and d2: "connects e' - Suc (connects e) - 1 = k"
      by (simp_all add: k)
    from IH have res: "fst (newHiveConn_loop w q startTime (snd s)) =
        Inl (the (snd (hiveConnect w (hiveHost q) (connects e' - 1))))" by blast
    from IH have tm: "now e' = now e + fst r + connBackoff + S + connBackoff * k"
      unfolding m2 by blast
    from IH have ce: "maxConnWaitTime < now e' - startTime" by blast
    from IH have ub: "now e' \<le> max (now e + fst r + connBackoff)
        (startTime + maxConnWaitTime + connBackoff) + dl" by blast
    from IH have se: "selects e' = Suc (selects e) + k" unfolding d2 by blast
    have g1: "connects e < connects e'" using lt by simp
    have g3: "now e' = now e + (\<Sum>i = connects e..<connects e'.
                 fst (hiveConnect w (hiveHost q) i))
         + connBackoff * (connects e' - connects e - 1)"
      unfolding sum m1 using tm by simp
    have g5: "now e' \<le> max (now e) (startTime + maxConnWaitTime + connBackoff) + dl"
      using ub le1 by simp
    have g6: "selects e' = selects e + (connects e' - connects e - 1)"
      unfolding d1 using se by simp
    show ?thesis
      unfolding eq e'_def [symmetric]
      using g1 res g3 ce g5 g6 by (simp only: dl_def simp_thms)
  qed
qed

lemma newPrestoConn_loop_summary:
  assumes fail: "\<forall>i. snd (sqlOpen w connStr i) \<noteq> None"
    and nc: "never_closed stop"
  shows "opens e < opens (snd (newPrestoConn_loop w connStr stop startTime e))
   \<and> fst (newPrestoConn_loop w connStr stop startTime e) =
       Inl (Errorf ''failed to connect to presto: %v''
         [the (snd (sqlOpen w connStr
              (opens (snd (newPrestoConn_loop w connStr stop startTime e)) - 1)))])
   \<and> now (snd (newPrestoConn_loop w connStr stop startTime e)) =
       now e + (\<Sum>i = opens e..<opens (snd (newPrestoConn_loop w connStr stop startTime e)).
                 fst (sqlOpen w connStr i))
         + connBackoff * (opens (snd (newPrestoConn_loop w connStr stop startTime e)) - opens e - 1)
   \<and> maxConnWaitTime < now (snd (newPrestoConn_loop w connStr stop startTime e)) - startTime
   \<and> now (snd (newPrestoConn_loop w connStr stop startTime e)) \<le>
       max (now e) (startTime + maxConnWaitTime + connBackoff)
         + fst (sqlOpen w connStr
              (opens (snd (newPrestoConn_loop w connStr stop startTime e)) - 1))
   \<and> selects (snd (newPrestoConn_loop w connStr stop startTime e)) =
       selects e + (opens (snd (newPrestoConn_loop w connStr stop startTime e)) - opens e - 1)"
  using fail nc
proof (induction w connStr stop startTime e rule: newPrestoConn_loop.induct)
  case (1 w connStr stop startTime e)
  define r where "r = sqlOpen w connStr (opens e)"
  define e1 where "e1 = e\<lparr>now := now e + fst r, opens := Suc (opens e),
                 events := events e @ [EvOpen (opens e)]\<rparr>"
  define s where "s = select_tick_stop w connBackoff stop e1"
  from "1.prems" obtain er where Some: "snd r = Some er"
    by (auto simp: r_def)
  show ?case
  proof (cases "now e1 - startTime > maxConnWaitTime")
    case True
    have eq: "newPrestoConn_loop w connStr stop startTime e =
        (Inl (Errorf ''failed to connect to presto: %v'' [er]), e1)"
      using Some True by (subst newPrestoConn_loop.simps) (simp add: Let_def r_def e1_def)
    show ?thesis
      unfolding eq using True Some by (simp add: e1_def r_def)
  next
    case False
    have sel: "s = (Tick, e1\<lparr>now := now e1 + connBackoff, selects := Suc (selects e1)\<rparr>)"
      unfolding s_def using never_closed_open [OF "1.prems"(2)]
      by (simp add: select_not_closed)
    then have Tick: "fst s = Tick" by simp
    have eq: "newPrestoConn_loop w connStr stop startTime e = newPrestoConn_loop w connStr stop startTime (snd s)"
      using Some False Tick
      by (subst newPrestoConn_loop.simps) (simp add: Let_def r_def e1_def s_def)
    define e' where "e' = snd (newPrestoConn_loop w connStr stop startTime (snd s))"
    define dl where "dl = fst (sqlOpen w connStr (opens e' - 1))"
    define S where
      "S = (\<Sum>i = Suc (opens e)..<opens e'. fst (sqlOpen w connStr i))"
    have c2: "opens (snd s) = Suc (opens e)" by (simp add: sel e1_def)
    have n2: "now (snd s) = now e + fst r + connBackoff" by (simp add: sel e1_def)
    have s2: "selects (snd s) = Suc (selects e)" by (simp add: sel e1_def)
    note IH = "1.IH" [OF r_def e1_def Some False s_def Tick "1.prems",
        folded e'_def, unfolded c2 n2 s2, folded dl_def S_def]
    have le1: "now e + fst r \<le> startTime + maxConnWaitTime" using False by (simp add: e1_def)
    from IH have lt: "Suc (opens e) < opens e'" by blast
    then obtain k where k: "opens e' = Suc (Suc (opens e)) + k"
      using less_iff_Suc_add by auto
    have sum: "(\<Sum>i = opens e..<opens e'. fst (sqlOpen w connStr i)) = fst r + S"
      using lt by (simp add: sum.atLeast_Suc_lessThan r_def S_def)
    have m1: "connBackoff * (opens e' - opens e - 1) = connBackoff + connBackoff * k"
      by (simp add: k)
    have m2: "connBackoff * (opens e' - Suc (opens e) - 1) = connBackoff * k"
      by (simp add: k)
    have d1: "opens e' - opens e - 1 = Suc k" and d2: "opens e' - Suc (opens e) - 1 = k"
      by (simp_all add: k)
    from IH have res: "fst (newPrestoConn_loop w connStr stop startTime (snd s)) =
        Inl (Errorf ''failed to connect to presto: %v''
          [the (snd (sqlOpen w connStr (opens e' - 1)))])" by blast
    from IH have tm: "now e' = now e + fst r + connBackoff + S + connBackoff * k"
      unfolding m2 by blast
    from IH have ce: "maxConnWaitTime < now e' - startTime" by blast
    from IH have ub: "now e' \<le> max (now e + fst r + connBackoff)
        (startTime + maxConnWaitTime + connBackoff) + dl" by blast
    from IH have se: "selects e' = Suc (selects e) + k" unfolding d2 by blast
    have g1: "opens e < opens e'" using lt by simp
    have g3: "now e' = now e + (\<Sum>i = opens e..<opens e'.
                 fst (sqlOpen w connStr i))
         + connBackoff * (opens e' - opens e - 1)"
      unfolding sum m1 using tm by simp
    have g5: "now e' \<le> max (now e) (startTime + maxConnWaitTime + connBackoff) + dl"
      using ub le1 by simp
    have g6: "selects e' = selects e + (opens e' - opens e - 1)"
      unfolding d1 using se by simp
    show ?thesis
      unfolding eq e'_def [symmetric]
      using g1 res g3 ce g5 g6 by (simp only: dl_def simp_thms)
  qed
qed


text \<open>
  C7. Both connection loops, \<open>newHiveConn\<close> and \<open>newPrestoConn\<close>, wait the fixed
  \<open>connBackoff\<close> of 15 seconds after a failed attempt before the next one (as long as the
  stop channel stays open), and a failed attempt that ends more than \<open>maxConnWaitTime\<close>,
  3 minutes, after the start of the loop makes the loop return an error. When every attempt
  fails, the loop returns an error; in any case it makes at most 14 attempts.

  Each function runs its loop with the start time read on entry. When every attempt fails
  and the stop channel is never closed, the function returns the error of its last
  attempt (wrapped, for Presto); the time it takes is the time of its attempts plus one
  backoff of 15 seconds for each attempt but the last; it returns only once more than 3
  minutes have passed since its entry, and no later than 3 minutes, one backoff and the
  duration of the last attempt after its entry.
\<close>

theorem connection_loops_backoff_and_ceiling:
  assumes hive: "newHiveConn w q e = (rh, eh)"
    and presto: "newPrestoConn w c stop e = (rp, ep)"
  shows "connBackoff = 15 * second \<and> maxConnWaitTime = 180 * second
   \<and> (hiveConnect w (hiveHost q) (connects e) = (d, Some er) \<longrightarrow>
        (maxConnWaitTime < now e + d - startTime \<longrightarrow>
           newHiveConn_loop w q startTime e =
             (Inl er, e\<lparr>now := now e + d, connects := Suc (connects e),
                        events := events e @ [EvConnect (connects e)]\<rparr>))
        \<and> (\<not> maxConnWaitTime < now e + d - startTime
             \<and> open_until (stopCh q) (now e + d + connBackoff) \<longrightarrow>
           newHiveConn_loop w q startTime e =
             newHiveConn_loop w q startTime
               (e\<lparr>now := now e + d + connBackoff, connects := Suc (connects e),
                  selects := Suc (selects e),
                  events := events e @ [EvConnect (connects e)]\<rparr>)))
   \<and> ((\<forall>i. snd (hiveConnect w (hiveHost q) i) \<noteq> None) \<longrightarrow>
        (\<exists>er'. fst (newHiveConn w q e) = Inl er'))
   \<and> connects (snd (newHiveConn w q e)) \<le> connects e + 14
   \<and> (sqlOpen w connStr (opens e) = (d, Some er) \<longrightarrow>
        (maxConnWaitTime < now e + d - startTime \<longrightarrow>
           newPrestoConn_loop w connStr stop startTime e =
             (Inl (Errorf ''failed to connect to presto: %v'' [er]),
              e\<lparr>now := now e + d, opens := Suc (opens e),
                events := events e @ [EvOpen (opens e)]\<rparr>))
        \<and> (\<not> maxConnWaitTime < now e + d - startTime
             \<and> open_until stop (now e + d + connBackoff) \<longrightarrow>
           newPrestoConn_loop w connStr stop startTime e =
             newPrestoConn_loop w connStr stop startTime
               (e\<lparr>now := now e + d + connBackoff, opens := Suc (opens e),
                  selects := Suc (selects e),
                  events := events e @ [EvOpen (opens e)]\<rparr>)))
   \<and> ((\<forall>i. snd (sqlOpen w (''presto://'' @ PrestoHost c @ ''/hive/default'') i) \<noteq> None) \<longrightarrow>
        (\<exists>er'. fst (newPrestoConn w c stop e) = Inl er'))
   \<and> opens (snd (newPrestoConn w c stop e)) \<le> opens e + 14
   \<and> newHiveConn w q e = newHiveConn_loop w q (now e) e
   \<and> newPrestoConn w c stop e =
       newPrestoConn_loop w (''presto://'' @ PrestoHost c @ ''/hive/default'') stop (now e) e
   \<and> ((\<forall>i. snd (hiveConnect w (hiveHost q) i) \<noteq> None) \<and> never_closed (stopCh q) \<longrightarrow>
        connects e < connects eh
        \<and> rh = Inl (the (snd (hiveConnect w (hiveHost q) (connects eh - 1))))
        \<and> now eh = now e + (\<Sum>i = connects e..<connects eh. fst (hiveConnect w (hiveHost q) i))
                   + connBackoff * (connects eh - connects e - 1)
        \<and> selects eh = selects e + (connects eh - connects e - 1)
        \<and> maxConnWaitTime < now eh - now e
        \<and> now eh \<le> now e + maxConnWaitTime + connBackoff
                   + fst (hiveConnect w (hiveHost q) (connects eh - 1)))
   \<and> ((\<forall>i. snd (sqlOpen w (''presto://'' @ PrestoHost c @ ''/hive/default'') i) \<noteq> None)
        \<and> never_closed stop \<longrightarrow>
        opens e < opens ep
        \<and> rp = Inl (Errorf ''failed to connect to presto: %v''
                 [the (snd (sqlOpen w (''presto://'' @ PrestoHost c @ ''/hive/default'')
                        (opens ep - 1)))])
        \<and> now ep = now e + (\<Sum>i = opens e..<opens ep.
                     fst (sqlOpen w (''presto://'' @ PrestoHost c @ ''/hive/default'') i))
                   + connBackoff * (opens ep - opens e - 1)
        \<and> selects ep = selects e + (opens ep - opens e - 1)
        \<and> maxConnWaitTime < now ep - now e
        \<and> now ep \<le> now e + maxConnWaitTime + connBackoff
                   + fst (sqlOpen w (''presto://'' @ PrestoHost c @ ''/hive/default'')
                        (opens ep - 1)))"
proof -
  have cs: "connBackoff = 15 * second \<and> maxConnWaitTime = 180 * second"
    by (simp add: connBackoff_def maxConnWaitTime_def minute_def)
  have hive_fail: "(\<forall>i. snd (hiveConnect w (hiveHost q) i) \<noteq> None) \<longrightarrow>
        (\<exists>er'. fst (newHiveConn w q e) = Inl er')"
    using newHiveConn_loop_fails [of w q "now e" e] by (simp add: newHiveConn_def)
  have presto_fail:
    "(\<forall>i. snd (sqlOpen w (''presto://'' @ PrestoHost c @ ''/hive/default'') i) \<noteq> None) \<longrightarrow>
        (\<exists>er'. fst (newPrestoConn w c stop e) = Inl er')"
    using newPrestoConn_loop_fails
      [of w "''presto://'' @ PrestoHost c @ ''/hive/default''" stop "now e" e]
    by (simp add: newPrestoConn_def)
  have tie_h: "newHiveConn w q e = newHiveConn_loop w q (now e) e"
    by (simp add: newHiveConn_def)
  have tie_p: "newPrestoConn w c stop e =
       newPrestoConn_loop w (''presto://'' @ PrestoHost c @ ''/hive/default'') stop (now e) e"
    by (simp add: newPrestoConn_def)
  have mx: "max (now e) (now e + maxConnWaitTime + connBackoff)
      = now e + maxConnWaitTime + connBackoff" by simp
  have sum_h: "(\<forall>i. snd (hiveConnect w (hiveHost q) i) \<noteq> None) \<and> never_closed (stopCh q) \<longrightarrow>
        connects e < connects eh
        \<and> rh = Inl (the (snd (hiveConnect w (hiveHost q) (connects eh - 1))))
        \<and> now eh = now e + (\<Sum>i = connects e..<connects eh. fst (hiveConnect w (hiveHost q) i))
                   + connBackoff * (connects eh - connects e - 1)
        \<and> selects eh = selects e + (connects eh - connects e - 1)
        \<and> maxConnWaitTime < now eh - now e
        \<and> now eh \<le> now e + maxConnWaitTime + connBackoff
                   + fst (hiveConnect w (hiveHost q) (connects eh - 1))"
  proof (intro impI, elim conjE)
    assume f: "\<forall>i. snd (hiveConnect w (hiveHost q) i) \<noteq> None" and n: "never_closed (stopCh q)"
    have l: "newHiveConn_loop w q (now e) e = (rh, eh)" using hive tie_h by simp
    show "connects e < connects eh
        \<and> rh = Inl (the (snd (hiveConnect w (hiveHost q) (connects eh - 1))))
        \<and> now eh = now e + (\<Sum>i = connects e..<connects eh. fst (hiveConnect w (hiveHost q) i))
                   + connBackoff * (connects eh - connects e - 1)
        \<and> selects eh = selects e + (connects eh - connects e - 1)
        \<and> maxConnWaitTime < now eh - now e
        \<and> now eh \<le> now e + maxConnWaitTime + connBackoff
                   + fst (hiveConnect w (hiveHost q) (connects eh - 1))"
      using newHiveConn_loop_summary [OF f n, where startTime = "now e" and e = e] unfolding l mx fst_conv snd_conv
      by blast
  qed
  have sum_p: "(\<forall>i. snd (sqlOpen w (''presto://'' @ PrestoHost c @ ''/hive/default'') i) \<noteq> None)
        \<and> never_closed stop \<longrightarrow>
        opens e < opens ep
        \<and> rp = Inl (Errorf ''failed to connect to presto: %v''
                 [the (snd (sqlOpen w (''presto://'' @ PrestoHost c @ ''/hive/default'')
                        (opens ep - 1)))])
        \<and> now ep = now e + (\<Sum>i = opens e..<opens ep.
                     fst (sqlOpen w (''presto://'' @ PrestoHost c @ ''/hive/default'') i))
                   + connBackoff * (opens ep - opens e - 1)
        \<and> selects ep = selects e + (opens ep - opens e - 1)
        \<and> maxConnWaitTime < now ep - now e
        \<and> now ep \<le> now e + maxConnWaitTime + connBackoff
                   + fst (sqlOpen w (''presto://'' @ PrestoHost c @ ''/hive/default'')
                        (opens ep - 1))"
  proof (intro impI, elim conjE)
    assume f: "\<forall>i. snd (sqlOpen w (''presto://'' @ PrestoHost c @ ''/hive/default'') i) \<noteq> None"
      and n: "never_closed stop"
    have l: "newPrestoConn_loop w (''presto://'' @ PrestoHost c @ ''/hive/default'') stop
        (now e) e = (rp, ep)" using presto tie_p by simp
    show "opens e < opens ep
        \<and> rp = Inl (Errorf ''failed to connect to presto: %v''
                 [the (snd (sqlOpen w (''presto://'' @ PrestoHost c @ ''/hive/default'')
                        (opens ep - 1)))])
        \<and> now ep = now e + (\<Sum>i = opens e..<opens ep.
                     fst (sqlOpen w (''presto://'' @ PrestoHost c @ ''/hive/default'') i))
                   + connBackoff * (opens ep - opens e - 1)
        \<and> selects ep = selects e + (opens ep - opens e - 1)
        \<and> maxConnWaitTime < now ep - now e
        \<and> now ep \<le> now e + maxConnWaitTime + connBackoff
                   + fst (sqlOpen w (''presto://'' @ PrestoHost c @ ''/hive/default'')
                        (opens ep - 1))"
      using newPrestoConn_loop_summary [OF f n, where startTime = "now e" and e = e] unfolding l mx fst_conv snd_conv
      by blast
  qed
  have old: "(hiveConnect w (hiveHost q) (connects e) = (d, Some er) \<longrightarrow>
        (maxConnWaitTime < now e + d - startTime \<longrightarrow>
           newHiveConn_loop w q startTime e =
             (Inl er, e\<lparr>now := now e + d, connects := Suc (connects e),
                        events := events e @ [EvConnect (connects e)]\<rparr>))
        \<and> (\<not> maxConnWaitTime < now e + d - startTime
             \<and> open_until (stopCh q) (now e + d + connBackoff) \<longrightarrow>
           newHiveConn_loop w q startTime e =
             newHiveConn_loop w q startTime
               (e\<lparr>now := now e + d + connBackoff, connects := Suc (connects e),
                  selects := Suc (selects e),
                  events := events e @ [EvConnect (connects e)]\<rparr>)))
   \<and> (sqlOpen w connStr (opens e) = (d, Some er) \<longrightarrow>
        (maxConnWaitTime < now e + d - startTime \<longrightarrow>
           newPrestoConn_loop w connStr stop startTime e =
             (Inl (Errorf ''failed to connect to presto: %v'' [er]),
              e\<lparr>now := now e + d, opens := Suc (opens e),
                events := events e @ [EvOpen (opens e)]\<rparr>))
        \<and> (\<not> maxConnWaitTime < now e + d - startTime
             \<and> open_until stop (now e + d + connBackoff) \<longrightarrow>
           newPrestoConn_loop w connStr stop startTime e =
             newPrestoConn_loop w connStr stop startTime
               (e\<lparr>now := now e + d + connBackoff, opens := Suc (opens e),
                  selects := Suc (selects e),
                  events := events e @ [EvOpen (opens e)]\<rparr>)))"
    using newHiveConn_loop_timeout [of w q e d er startTime]
      newHiveConn_loop_backoff [of w q e d er startTime]
      newPrestoConn_loop_timeout [of w connStr e d er startTime stop]
      newPrestoConn_loop_backoff [of w connStr e d er startTime stop]
    by blast
  show ?thesis
    using cs hive_fail presto_fail newHiveConn_bound [of w q e]
      newPrestoConn_bound [of w c stop e] tie_h tie_p sum_h sum_p old
    by blast
qed

theorem connection_loops_backoff_and_ceiling_witness:
  "newHiveConn_loop world_down (newHiveQueryer ''hive:10000'' False (Chan None)) 0
       (env0\<lparr>now := 181 * second\<rparr>) =
     (Inl connRefused, env0\<lparr>now := 181 * second, connects := 1, events := [EvConnect 0]\<rparr>)
   \<and> newHiveConn_loop world_down (newHiveQueryer ''hive:10000'' False (Chan None)) 0 env0 =
     newHiveConn_loop world_down (newHiveQueryer ''hive:10000'' False (Chan None)) 0
       (env0\<lparr>now := 15 * second, connects := 1, selects := 1, events := [EvConnect 0]\<rparr>)
   \<and> (\<exists>er. fst (newHiveConn world_down (newHiveQueryer ''hive:10000'' False (Chan None)) env0)
          = Inl er)
   \<and> newPrestoConn_loop world_down ''presto://presto:8080/hive/default'' (Chan None) 0
       (env0\<lparr>now := 181 * second\<rparr>) =
     (Inl (Errorf ''failed to connect to presto: %v'' [connRefused]),
      env0\<lparr>now := 181 * second, opens := 1, events := [EvOpen 0]\<rparr>)
   \<and> newPrestoConn_loop world_down ''presto://presto:8080/hive/default'' (Chan None) 0 env0 =
     newPrestoConn_loop world_down ''presto://presto:8080/hive/default'' (Chan None) 0
       (env0\<lparr>now := 15 * second, opens := 1, selects := 1, events := [EvOpen 0]\<rparr>)
   \<and> (\<exists>er. fst (newPrestoConn world_down config0 (Chan None) env0) = Inl er)
   \<and> fst (newHiveConn world_down (newHiveQueryer ''hive:10000'' False (Chan None)) env0)
       = Inl connRefused
   \<and> connects (snd (newHiveConn world_down (newHiveQueryer ''hive:10000'' False (Chan None))
        env0)) = 14
   \<and> selects (snd (newHiveConn world_down (newHiveQueryer ''hive:10000'' False (Chan None))
        env0)) = 13
   \<and> now (snd (newHiveConn world_down (newHiveQueryer ''hive:10000'' False (Chan None))
        env0)) = 195 * second
   \<and> fst (newPrestoConn world_down config0 (Chan None) env0)
       = Inl (Errorf ''failed to connect to presto: %v'' [connRefused])
   \<and> opens (snd (newPrestoConn world_down config0 (Chan None) env0)) = 14
   \<and> now (snd (newPrestoConn world_down config0 (Chan None) env0)) = 195 * second"
proof -
  define q0 where "q0 = newHiveQueryer ''hive:10000'' False (Chan None)"
  define rh where "rh = newHiveConn world_down q0 env0"
  define rp where "rp = newPrestoConn world_down config0 (Chan None) env0"
  have q: "stopCh q0 = NilChan" "hiveHost q0 = ''hive:10000''"
    by (simp_all add: q0_def newHiveQueryer_def)
  have wd: "hiveConnect world_down h i = (0, Some connRefused)"
    "sqlOpen world_down h i = (0, Some connRefused)" for h i
    by (simp_all add: world_down_def)
  have z: "now env0 = 0" "connects env0 = 0" "opens env0 = 0" "selects env0 = 0"
    "events env0 = []"
    by (simp_all add: env0_def)
  have cstr: "''presto://'' @ PrestoHost config0 @ ''/hive/default''
      = ''presto://presto:8080/hive/default''"
    by (simp add: config0_def)
  note late = connection_loops_backoff_and_ceiling
      [OF surjective_pairing surjective_pairing,
        where w = world_down and q = q0
        and e = "env0\<lparr>now := 181 * second\<rparr>" and d = 0 and er = connRefused
        and startTime = 0 and connStr = "''presto://presto:8080/hive/default''"
        and stop = "Chan None" and c = config0]
  note early = connection_loops_backoff_and_ceiling
      [OF surjective_pairing surjective_pairing,
        where w = world_down and q = q0
        and e = env0 and d = 0 and er = connRefused
        and startTime = 0 and connStr = "''presto://presto:8080/hive/default''"
        and stop = "Chan None" and c = config0]
  have k: "maxConnWaitTime < 181 * second" "\<not> maxConnWaitTime < 0"
    "connBackoff = 15 * second"
    by (simp_all add: maxConnWaitTime_def minute_def second_def connBackoff_def)
  have s1: "newHiveConn_loop world_down q0 0 (env0\<lparr>now := 181 * second\<rparr>) =
     (Inl connRefused, env0\<lparr>now := 181 * second, connects := 1, events := [EvConnect 0]\<rparr>)"
    using late [THEN conjunct2, THEN conjunct2, THEN conjunct1] by (simp add: wd z k)
  have s2: "newHiveConn_loop world_down q0 0 env0 =
     newHiveConn_loop world_down q0 0
       (env0\<lparr>now := 15 * second, connects := 1, selects := 1, events := [EvConnect 0]\<rparr>)"
    using early [THEN conjunct2, THEN conjunct2, THEN conjunct1] by (simp add: wd z k q open_until_def)
  have s3: "\<exists>er. fst (newHiveConn world_down q0 env0) = Inl er"
    using early [THEN conjunct2, THEN conjunct2, THEN conjunct2, THEN conjunct1] by (simp add: wd)
  have s4: "newPrestoConn_loop world_down ''presto://presto:8080/hive/default'' (Chan None) 0
       (env0\<lparr>now := 181 * second\<rparr>) =
     (Inl (Errorf ''failed to connect to presto: %v'' [connRefused]),
      env0\<lparr>now := 181 * second, opens := 1, events := [EvOpen 0]\<rparr>)"
    using late [THEN conjunct2, THEN conjunct2, THEN conjunct2, THEN conjunct2, THEN conjunct2, THEN conjunct1] by (simp add: wd z k)
  have s5: "newPrestoConn_loop world_down ''presto://presto:8080/hive/default'' (Chan None) 0
       env0 =
     newPrestoConn_loop world_down ''presto://presto:8080/hive/default'' (Chan None) 0
       (env0\<lparr>now := 15 * second, opens := 1, selects := 1, events := [EvOpen 0]\<rparr>)"
    using early [THEN conjunct2, THEN conjunct2, THEN conjunct2, THEN conjunct2, THEN conjunct2, THEN conjunct1] by (simp add: wd z k open_until_def)
  have s6: "\<exists>er. fst (newPrestoConn world_down config0 (Chan None) env0) = Inl er"
    using early [THEN conjunct2, THEN conjunct2, THEN conjunct2, THEN conjunct2, THEN conjunct2, THEN conjunct2, THEN conjunct1] by (simp add: wd)
  have hs: "0 < connects (snd rh) \<and> fst rh = Inl connRefused
      \<and> now (snd rh) = connBackoff * (connects (snd rh) - 1)
      \<and> selects (snd rh) = connects (snd rh) - 1
      \<and> maxConnWaitTime < now (snd rh)
      \<and> now (snd rh) \<le> maxConnWaitTime + connBackoff"
    using early [THEN conjunct2, THEN conjunct2, THEN conjunct2, THEN conjunct2, THEN conjunct2, THEN conjunct2, THEN conjunct2, THEN conjunct2, THEN conjunct2, THEN conjunct2, THEN conjunct1] by (simp add: wd z q never_closed_def rh_def [symmetric])
  have ps: "0 < opens (snd rp) \<and> fst rp = Inl (Errorf ''failed to connect to presto: %v''
        [connRefused])
      \<and> now (snd rp) = connBackoff * (opens (snd rp) - 1)
      \<and> maxConnWaitTime < now (snd rp)
      \<and> now (snd rp) \<le> maxConnWaitTime + connBackoff"
    using early [THEN conjunct2, THEN conjunct2, THEN conjunct2, THEN conjunct2, THEN conjunct2, THEN conjunct2, THEN conjunct2, THEN conjunct2, THEN conjunct2, THEN conjunct2, THEN conjunct2] by (simp add: wd z never_closed_def rp_def [symmetric])
  have count: "n = 14" if "0 < n" "t = connBackoff * (n - 1)" "maxConnWaitTime < t"
    "t \<le> maxConnWaitTime + connBackoff" for n t :: nat
    using that by (simp add: connBackoff_def maxConnWaitTime_def minute_def second_def)
  have nh: "connects (snd rh) = 14" using hs count by blast
  have np: "opens (snd rp) = 14" using ps count by blast
  have "fst rh = Inl connRefused \<and> connects (snd rh) = 14 \<and> selects (snd rh) = 13
      \<and> now (snd rh) = 195 * second
      \<and> fst rp = Inl (Errorf ''failed to connect to presto: %v'' [connRefused])
      \<and> opens (snd rp) = 14 \<and> now (snd rp) = 195 * second"
    using hs ps nh np by (simp add: connBackoff_def)
  then show ?thesis
    using s1 s2 s3 s4 s5 s6 unfolding rh_def rp_def q0_def by blast
qed

lemma hive_down_step:
  "stopCh q = NilChan \<Longrightarrow>
     newHiveConn_loop world_down q 0 e =
       (if maxConnWaitTime < now e then
          (Inl connRefused, e\<lparr>connects := Suc (connects e),
                             events := events e @ [EvConnect (connects e)]\<rparr>)
        else newHiveConn_loop world_down q 0
          (e\<lparr>now := now e + connBackoff, connects := Suc (connects e),
             selects := Suc (selects e), events := events e @ [EvConnect (connects e)]\<rparr>))"
  using newHiveConn_loop_timeout [of world_down q e 0 connRefused 0]
    newHiveConn_loop_backoff [of world_down q e 0 connRefused 0]
  by (simp add: world_down_def open_until_def)

text \<open>
  C3. \<open>newHiveQueryer\<close> does not store the stop channel it is given: the \<open>stopCh\<close> of
  the queryer is the nil channel, and the \<open>select\<close> of the backoff always takes the tick.
  With Hive down and the stop signal fired one second after the start, \<open>newHiveConn\<close>
  keeps retrying for 195 seconds, makes all 14 attempts and returns the connection error,
  not the shutdown error; \<open>newPrestoConn\<close>, given the same channel, returns the shutdown
  error after one second.
\<close>

theorem newHiveConn_ignores_stop:
  "stopCh (newHiveQueryer host lq stop) = NilChan
   \<and> select_tick_stop w d (stopCh (newHiveQueryer host lq stop)) e =
       (Tick, e\<lparr>now := now e + d, selects := Suc (selects e)\<rparr>)
   \<and> newHiveConn world_down (newHiveQueryer ''hive:10000'' False (Chan (Some second))) env0 =
       (Inl connRefused,
        env0\<lparr>now := 195 * second, connects := 14, selects := 13,
             events := map EvConnect [0, 1, 2, 3, 4, 5, 6, 7, 8, 9, 10, 11, 12, 13]\<rparr>)
   \<and> newPrestoConn world_down config0 (Chan (Some second)) env0 =
       (Inl (Errorf ''got shutdown signal, closing Presto connection'' []),
        env0\<lparr>now := second, opens := 1, selects := 1, events := [EvOpen 0]\<rparr>)"
proof -
  have nil: "stopCh (newHiveQueryer host lq stop) = NilChan"
    by (simp add: newHiveQueryer_def)
  have sel: "select_tick_stop w d (stopCh (newHiveQueryer host lq stop)) e =
       (Tick, e\<lparr>now := now e + d, selects := Suc (selects e)\<rparr>)"
    by (simp add: nil select_not_closed open_until_def)
  have nil0: "stopCh (newHiveQueryer ''hive:10000'' False (Chan (Some second))) = NilChan"
    by (simp add: newHiveQueryer_def)
  have hive: "newHiveConn world_down (newHiveQueryer ''hive:10000'' False (Chan (Some second)))
       env0 =
       (Inl connRefused,
        env0\<lparr>now := 195 * second, connects := 14, selects := 13,
             events := map EvConnect [0, 1, 2, 3, 4, 5, 6, 7, 8, 9, 10, 11, 12, 13]\<rparr>)"
  proof -
    define q0 where "q0 = newHiveQueryer ''hive:10000'' False (Chan (Some second))"
    have "stopCh q0 = NilChan" by (simp add: q0_def nil0)
    then have "newHiveConn world_down q0 env0 =
       (Inl connRefused,
        env0\<lparr>now := 195 * second, connects := 14, selects := 13,
             events := map EvConnect [0, 1, 2, 3, 4, 5, 6, 7, 8, 9, 10, 11, 12, 13]\<rparr>)"
      by (simp add: newHiveConn_def hive_down_step env0_def maxConnWaitTime_def
          connBackoff_def minute_def second_def)
    then show ?thesis by (simp add: q0_def)
  qed
  have presto: "newPrestoConn world_down config0 (Chan (Some second)) env0 =
       (Inl (Errorf ''got shutdown signal, closing Presto connection'' []),
        env0\<lparr>now := second, opens := 1, selects := 1, events := [EvOpen 0]\<rparr>)"
    using newPrestoConn_loop_stop
      [of world_down "''presto://presto:8080/hive/default''" env0 0 connRefused 0 second]
    by (simp add: newPrestoConn_def config0_def world_down_def env0_def maxConnWaitTime_def
        connBackoff_def minute_def second_def)
  show ?thesis
    using nil sel hive presto by simp
qed

subsection \<open>Queries on the Hive connection\<close>

lemma select_keeps [simp]:
  "queries (snd (select_tick_stop w d stop e)) = queries e"
  by (auto simp: select_tick_stop_def Let_def split: chan.splits option.splits if_splits)

lemma newHiveConn_loop_result:
  "queries (snd (newHiveConn_loop w q startTime e)) = queries e
   \<and> connects e < connects (snd (newHiveConn_loop w q startTime e))
   \<and> (\<forall>c. fst (newHiveConn_loop w q startTime e) = Inr c \<longrightarrow>
        (\<exists>i. connects e \<le> i \<and> i < connects (snd (newHiveConn_loop w q startTime e))
           \<and> c = Connection i (logQueries q)))"
proof (induction w q startTime e rule: newHiveConn_loop.induct)
  case (1 w q startTime e)
  define r where "r = hiveConnect w (hiveHost q) (connects e)"
  define e1 where "e1 = e\<lparr>now := now e + fst r, connects := Suc (connects e),
                 events := events e @ [EvConnect (connects e)]\<rparr>"
  define s where "s = select_tick_stop w connBackoff (stopCh q) e1"
  show ?case
  proof (cases "snd r")
    case None
    then show ?thesis
      by (subst (1 2 3 4) newHiveConn_loop.simps) (simp add: Let_def r_def)
  next
    case (Some er)
    show ?thesis
    proof (cases "now e1 - startTime > maxConnWaitTime")
      case True
      with Some show ?thesis
        by (subst (1 2 3 4) newHiveConn_loop.simps) (simp add: Let_def r_def e1_def)
    next
      case False
      show ?thesis
      proof (cases "fst s")
        case Stop
        with Some False show ?thesis
          by (subst (1 2 3 4) newHiveConn_loop.simps) (simp add: Let_def r_def e1_def s_def)
      next
        case Tick
        have eq: "newHiveConn_loop w q startTime e = newHiveConn_loop w q startTime (snd s)"
          using Some False Tick
          by (subst newHiveConn_loop.simps) (simp add: Let_def r_def e1_def s_def)
        have q2: "queries (snd s) = queries e" by (simp add: s_def e1_def)
        have c2: "connects (snd s) = Suc (connects e)" by (simp add: s_def e1_def)
        from "1.IH" [OF r_def e1_def Some False s_def Tick] show ?thesis
          unfolding eq q2 c2 by (meson Suc_leD Suc_lessD)
      qed
    qed
  qed
qed

lemma getHiveConnection_queries:
  "queries (snd (snd (getHiveConnection w q e))) = queries e"
  using newHiveConn_loop_result [of w q "now e" e]
  by (auto simp: getHiveConnection_def newHiveConn_def split: option.splits prod.splits sum.splits)

lemma getHiveConnection_stored:
  "getHiveConnection w q e = (Inr hc, q1, e1) \<Longrightarrow> hiveConn q1 = Some hc"
  by (auto simp: getHiveConnection_def split: option.splits prod.splits sum.splits)

lemma getHiveConnection_fresh:
  "hiveConn q = None \<Longrightarrow> getHiveConnection w q e = (Inr c, q2, e2) \<Longrightarrow>
     \<exists>i. connects e \<le> i \<and> i < connects e2 \<and> c = Connection i (logQueries q)"
  using newHiveConn_loop_result [of w q "now e" e]
  by (auto simp: getHiveConnection_def newHiveConn_def split: prod.splits sum.splits)

lemma closeHiveConnection_simps [simp]:
  "hiveConn (fst (closeHiveConnection q e)) = None"
  "logQueries (fst (closeHiveConnection q e)) = logQueries q"
  "queries (snd (closeHiveConnection q e)) = queries e"
  "connects (snd (closeHiveConnection q e)) = connects e"
  by (simp_all add: closeHiveConnection_def split: option.splits)

lemma closeHiveConnection_events:
  "hiveConn q = Some c \<Longrightarrow> events (snd (closeHiveConnection q e)) = events e @ [EvClose c]"
  "hiveConn q = None \<Longrightarrow> closeHiveConnection q e = (q, e)"
  by (simp_all add: closeHiveConnection_def)

lemma Query_attempt_queries:
  "queries (snd (snd (Query_attempt w query q e))) \<le> Suc (queries e)"
  using getHiveConnection_queries [of w q e]
  by (auto simp: Query_attempt_def conn_Query_def split: prod.splits sum.splits)

lemma Query_loop_unfold:
  "Query_loop w query retries q e =
     (if retries < maxRetries then
        (case Query_attempt w query q e of
           (er, q1, e1) \<Rightarrow>
             if reconnects er then
               Query_loop w query (Suc retries) (fst (closeHiveConnection q1 e1))
                 (snd (closeHiveConnection q1 e1))
             else (er, q1, e1))
      else (Some errUnableToConnect, fst (closeHiveConnection q e),
            snd (closeHiveConnection q e)))"
  by (subst Query_loop.simps)
    (auto simp: Query_attempt_def reconnects_def isErrBrokenPipe_def
      split: prod.splits sum.splits option.splits)

lemma Query_loop_queries:
  "queries (snd (snd (Query_loop w query retries q e))) \<le> queries e + (maxRetries - retries)"
proof (induction "maxRetries - retries" arbitrary: retries q e)
  case 0
  then show ?case by (subst Query_loop_unfold) simp
next
  case (Suc n)
  then have lt: "retries < maxRetries" by simp
  obtain er q1 e1 where att: "Query_attempt w query q e = (er, q1, e1)"
    by (cases "Query_attempt w query q e") auto
  have le: "queries e1 \<le> Suc (queries e)"
    using Query_attempt_queries [of w query q e] by (simp add: att)
  show ?case
  proof (cases "reconnects er")
    case True
    have n: "n = maxRetries - Suc retries" using Suc.hyps(2) by simp
    have "queries (snd (snd (Query_loop w query (Suc retries) (fst (closeHiveConnection q1 e1))
                 (snd (closeHiveConnection q1 e1))))) \<le> queries e1 + (maxRetries - Suc retries)"
      using Suc.hyps(1) [OF n, of "fst (closeHiveConnection q1 e1)"
          "snd (closeHiveConnection q1 e1)"] by simp
    then show ?thesis
      using lt le True by (subst Query_loop_unfold) (simp add: att)
  next
    case False
    then show ?thesis
      using lt le by (subst Query_loop_unfold) (simp add: att)
  qed
qed

lemma Query_loop_attempts_fail:
  "attempts_fail w query (maxRetries - retries) q e \<Longrightarrow>
     fst (Query_loop w query retries q e) = Some errUnableToConnect
     \<and> hiveConn (fst (snd (Query_loop w query retries q e))) = None"
proof (induction "maxRetries - retries" arbitrary: retries q e)
  case 0
  then show ?case by (subst (1 2) Query_loop_unfold) simp
next
  case (Suc n)
  then have lt: "retries < maxRetries" by simp
  have n: "n = maxRetries - Suc retries" using Suc.hyps(2) by simp
  obtain er q1 e1 where att: "Query_attempt w query q e = (er, q1, e1)"
    by (cases "Query_attempt w query q e") auto
  have af: "attempts_fail w query (Suc n) q e" using Suc.prems Suc.hyps(2) by simp
  then have rc: "reconnects er"
    and rest: "attempts_fail w query n (fst (closeHiveConnection q1 e1))
       (snd (closeHiveConnection q1 e1))"
    by (simp_all add: att split: prod.splits)
  have "Query_loop w query retries q e =
      Query_loop w query (Suc retries) (fst (closeHiveConnection q1 e1))
        (snd (closeHiveConnection q1 e1))"
    using lt rc by (subst Query_loop_unfold) (simp add: att)
  then show ?case
    using Suc.hyps(1) [OF n] rest n by simp
qed


lemma Query_attempt_conn:
  assumes "Query_attempt w query q e = (er, q1, e1)" and "hiveConn q = None"
  shows "logQueries q1 = logQueries q
    \<and> (\<forall>c. hiveConn q1 = Some c \<longrightarrow>
         (\<exists>i. connects e \<le> i \<and> i < connects e1 \<and> c = Connection i (logQueries q)))"
proof (cases "getHiveConnection w q e")
  case (fields r qa ea)
  show ?thesis
  proof (cases r)
    case (Inl x)
    with fields assms show ?thesis
      by (auto simp: Query_attempt_def getHiveConnection_def split: prod.splits sum.splits)
  next
    case (Inr c)
    from getHiveConnection_fresh [OF assms(2) fields [unfolded Inr]]
    obtain i where i: "connects e \<le> i" "i < connects ea" "c = Connection i (logQueries q)"
      by blast
    have st: "hiveConn qa = Some c" using fields Inr by (simp add: getHiveConnection_stored)
    have lq: "logQueries qa = logQueries q"
      using fields assms(2)
      by (auto simp: getHiveConnection_def split: prod.splits sum.splits)
    have "q1 = qa" "connects e1 = connects ea"
      using assms(1) fields Inr by (auto simp: Query_attempt_def conn_Query_def)
    with st lq i show ?thesis by auto
  qed
qed

lemma Query_attempt_queries_eq:
  "Query_attempt w query q e = (er, q1, e1) \<Longrightarrow> queries e1 \<le> Suc (queries e)"
  using Query_attempt_queries [of w query q e] by simp

text \<open>
  C1. \<open>Query\<close> sends the query at most 3 times, whatever the SQL string. An attempt that
  ends with \<open>io.EOF\<close> or a broken pipe, while getting the connection or in the query,
  closes the connection (the stored connection becomes \<open>nil\<close>, and a connection that was
  held is closed) and goes on to the next attempt, where a connection can only come from a
  new call of \<open>hive.Connect\<close>. When all 3 attempts end that way, \<open>Query\<close> returns the
  error "unable to create new hive connection ..." with the connection closed.

  With the three attempts named, each made after the connection of the one before was
  closed: \<open>Query\<close> returns the outcome of the first attempt that does not end with
  \<open>io.EOF\<close> or a broken pipe, in the state that attempt left, and the error above after
  the third close when all three end that way.
\<close>

theorem Query_retries_three_times:
  assumes a1: "Query_attempt w query q e = (er1, q1, e1)"
    and c1: "closeHiveConnection q1 e1 = (q1', e1')"
    and a2: "Query_attempt w query q1' e1' = (er2, q2, e2)"
    and c2: "closeHiveConnection q2 e2 = (q2', e2')"
    and a3: "Query_attempt w query q2' e2' = (er3, q3, e3)"
    and c3: "closeHiveConnection q3 e3 = (q3', e3')"
  shows "maxRetries = 3
   \<and> queries (snd (snd (Query w q query e))) \<le> queries e + 3
   \<and> (retries < maxRetries \<and> Query_attempt w query qa ea = (er, qb, eb) \<and> reconnects er \<longrightarrow>
        Query_loop w query retries qa ea =
          Query_loop w query (Suc retries) (fst (closeHiveConnection qb eb))
            (snd (closeHiveConnection qb eb))
        \<and> hiveConn (fst (closeHiveConnection qb eb)) = None
        \<and> (\<forall>c. hiveConn qb = Some c \<longrightarrow>
              events (snd (closeHiveConnection qb eb)) = events eb @ [EvClose c])
        \<and> (\<forall>c qc ec.
              getHiveConnection w (fst (closeHiveConnection qb eb))
                (snd (closeHiveConnection qb eb)) = (Inr c, qc, ec) \<longrightarrow>
              (\<exists>i. connects eb \<le> i \<and> i < connects ec \<and> c = Connection i (logQueries qb))))
   \<and> (attempts_fail w query 3 q e \<longrightarrow>
        fst (Query w q query e) = Some errUnableToConnect
        \<and> hiveConn (fst (snd (Query w q query e))) = None)
   \<and> Query w q query e =
       (if \<not> reconnects er1 then (er1, q1, e1)
        else if \<not> reconnects er2 then (er2, q2, e2)
        else if \<not> reconnects er3 then (er3, q3, e3)
        else (Some errUnableToConnect, q3', e3'))
   \<and> hiveConn q1' = None \<and> hiveConn q2' = None \<and> hiveConn q3' = None
   \<and> (\<forall>c. hiveConn q1 = Some c \<longrightarrow> events e1' = events e1 @ [EvClose c])
   \<and> (\<forall>c. hiveConn q2 = Some c \<longrightarrow> events e2' = events e2 @ [EvClose c])
   \<and> (\<forall>c. hiveConn q3 = Some c \<longrightarrow> events e3' = events e3 @ [EvClose c])
   \<and> (\<forall>c. hiveConn q2 = Some c \<longrightarrow>
         (\<exists>i. connects e1 \<le> i \<and> i < connects e2 \<and> c = Connection i (logQueries q1)))
   \<and> (\<forall>c. hiveConn q3 = Some c \<longrightarrow>
         (\<exists>i. connects e2 \<le> i \<and> i < connects e3 \<and> c = Connection i (logQueries q2)))
   \<and> queries e1 \<le> queries e + 1 \<and> queries e2 \<le> queries e + 2 \<and> queries e3 \<le> queries e + 3
   \<and> queries e3' = queries e3"
proof -
  have m: "maxRetries = 3" by (simp add: maxRetries_def)
  have bound: "queries (snd (snd (Query w q query e))) \<le> queries e + 3"
    using Query_loop_queries [of w query 0 q e] by (simp add: Query_def m)
  have step: "retries < maxRetries \<and> Query_attempt w query qa ea = (er, qb, eb) \<and> reconnects er \<longrightarrow>
        Query_loop w query retries qa ea =
          Query_loop w query (Suc retries) (fst (closeHiveConnection qb eb))
            (snd (closeHiveConnection qb eb))"
    by (subst Query_loop_unfold) simp
  have closed: "\<forall>c. hiveConn qb = Some c \<longrightarrow>
              events (snd (closeHiveConnection qb eb)) = events eb @ [EvClose c]"
    by (simp add: closeHiveConnection_events)
  have fresh: "\<forall>c qc ec.
              getHiveConnection w (fst (closeHiveConnection qb eb))
                (snd (closeHiveConnection qb eb)) = (Inr c, qc, ec) \<longrightarrow>
              (\<exists>i. connects eb \<le> i \<and> i < connects ec \<and> c = Connection i (logQueries qb))"
  proof (intro allI impI)
    fix c qc ec
    assume g: "getHiveConnection w (fst (closeHiveConnection qb eb))
                (snd (closeHiveConnection qb eb)) = (Inr c, qc, ec)"
    have "hiveConn (fst (closeHiveConnection qb eb)) = None" by simp
    from getHiveConnection_fresh [OF this g]
    show "\<exists>i. connects eb \<le> i \<and> i < connects ec \<and> c = Connection i (logQueries qb)"
      by simp
  qed
  have all: "attempts_fail w query 3 q e \<longrightarrow>
        fst (Query w q query e) = Some errUnableToConnect
        \<and> hiveConn (fst (snd (Query w q query e))) = None"
    using Query_loop_attempts_fail [of w query 0 q e] by (simp add: Query_def m)
  have h1: "hiveConn q1' = None" and k1: "logQueries q1' = logQueries q1"
    and n1: "connects e1' = connects e1" and u1: "queries e1' = queries e1"
    using closeHiveConnection_simps [of q1 e1] by (simp_all add: c1)
  have h2: "hiveConn q2' = None" and k2: "logQueries q2' = logQueries q2"
    and n2: "connects e2' = connects e2" and u2: "queries e2' = queries e2"
    using closeHiveConnection_simps [of q2 e2] by (simp_all add: c2)
  have h3: "hiveConn q3' = None" and u3: "queries e3' = queries e3"
    using closeHiveConnection_simps [of q3 e3] by (simp_all add: c3)
  have ev1: "\<forall>c. hiveConn q1 = Some c \<longrightarrow> events e1' = events e1 @ [EvClose c]"
    using closeHiveConnection_events(1) [of q1 _ e1] by (simp add: c1)
  have ev2: "\<forall>c. hiveConn q2 = Some c \<longrightarrow> events e2' = events e2 @ [EvClose c]"
    using closeHiveConnection_events(1) [of q2 _ e2] by (simp add: c2)
  have ev3: "\<forall>c. hiveConn q3 = Some c \<longrightarrow> events e3' = events e3 @ [EvClose c]"
    using closeHiveConnection_events(1) [of q3 _ e3] by (simp add: c3)
  have f2: "\<forall>c. hiveConn q2 = Some c \<longrightarrow>
         (\<exists>i. connects e1 \<le> i \<and> i < connects e2 \<and> c = Connection i (logQueries q1))"
    using Query_attempt_conn [OF a2 h1] by (simp add: k1 n1)
  have f3: "\<forall>c. hiveConn q3 = Some c \<longrightarrow>
         (\<exists>i. connects e2 \<le> i \<and> i < connects e3 \<and> c = Connection i (logQueries q2))"
    using Query_attempt_conn [OF a3 h2] by (simp add: k2 n2)
  have qs: "queries e1 \<le> queries e + 1 \<and> queries e2 \<le> queries e + 2
      \<and> queries e3 \<le> queries e + 3"
    using Query_attempt_queries_eq [OF a1] Query_attempt_queries_eq [OF a2]
      Query_attempt_queries_eq [OF a3] by (simp add: u1 u2)
  have L3: "Query_loop w query (Suc (Suc (Suc 0))) q3' e3' = (Some errUnableToConnect, q3', e3')"
    by (subst Query_loop_unfold) (simp add: m closeHiveConnection_events(2) [OF h3])
  have L2: "Query_loop w query (Suc (Suc 0)) q2' e2' =
      (if \<not> reconnects er3 then (er3, q3, e3) else (Some errUnableToConnect, q3', e3'))"
    by (subst Query_loop_unfold) (simp add: m a3 c3 L3)
  have L1: "Query_loop w query (Suc 0) q1' e1' =
      (if \<not> reconnects er2 then (er2, q2, e2)
       else if \<not> reconnects er3 then (er3, q3, e3)
       else (Some errUnableToConnect, q3', e3'))"
    by (subst Query_loop_unfold) (simp add: m a2 c2 L2)
  have L0: "Query w q query e =
       (if \<not> reconnects er1 then (er1, q1, e1)
        else if \<not> reconnects er2 then (er2, q2, e2)
        else if \<not> reconnects er3 then (er3, q3, e3)
        else (Some errUnableToConnect, q3', e3'))"
    unfolding Query_def by (subst Query_loop_unfold) (simp add: m a1 c1 L1)
  have hc: "hiveConn (fst (closeHiveConnection qb eb)) = None" by simp
  show ?thesis
    using m bound step closed fresh all L0 h1 h2 h3 ev1 ev2 ev3 f2 f3 qs u3 hc
    by blast
qed

lemma attempt_up:
  "hiveConnect w = (\<lambda>host i. (0, None)) \<Longrightarrow> hiveConn q = None \<Longrightarrow>
     Query_attempt w query q e =
       (connQuery w (Connection (connects e) (logQueries q)) query (queries e),
        q\<lparr>hiveConn := Some (Connection (connects e) (logQueries q))\<rparr>,
        e\<lparr>connects := Suc (connects e), queries := Suc (queries e),
          events := events e @ [EvConnect (connects e),
            EvQuery (Connection (connects e) (logQueries q)) query]\<rparr>)"
proof -
  assume up: "hiveConnect w = (\<lambda>host i. (0, None))" and n: "hiveConn q = None"
  have "newHiveConn_loop w q (now e) e =
     (Inr (Connection (connects e) (logQueries q)),
      e\<lparr>connects := Suc (connects e), events := events e @ [EvConnect (connects e)]\<rparr>)"
    by (subst newHiveConn_loop.simps) (simp add: up Let_def)
  then show ?thesis
    by (simp add: Query_attempt_def getHiveConnection_def newHiveConn_def conn_Query_def n)
qed

theorem Query_retries_three_times_witness:
  "Query world_pipe (newHiveQueryer ''hive:10000'' False (Chan None)) ''select 1'' env0 =
     (None,
      (newHiveQueryer ''hive:10000'' False (Chan None))\<lparr>hiveConn := Some (Connection 1 False)\<rparr>,
      env0\<lparr>connects := 2, queries := 2,
           events := [EvConnect 0, EvQuery (Connection 0 False) ''select 1'',
                      EvClose (Connection 0 False),
                      EvConnect 1, EvQuery (Connection 1 False) ''select 1'']\<rparr>)
   \<and> Query world_eof (newHiveQueryer ''hive:10000'' False (Chan None)) ''select 1'' env0 =
     (Some errUnableToConnect,
      newHiveQueryer ''hive:10000'' False (Chan None),
      env0\<lparr>connects := 3, queries := 3,
           events := [EvConnect 0, EvQuery (Connection 0 False) ''select 1'',
                      EvClose (Connection 0 False),
                      EvConnect 1, EvQuery (Connection 1 False) ''select 1'',
                      EvClose (Connection 1 False),
                      EvConnect 2, EvQuery (Connection 2 False) ''select 1'',
                      EvClose (Connection 2 False)]\<rparr>)"
proof -
  have t: "x = (fst x, fst (snd x), snd (snd x))" for x :: "error \<times> hiveQueryer \<times> env"
    by simp
  have p: "x = (fst x, snd x)" for x :: "hiveQueryer \<times> env"
    by simp
  have up: "hiveConnect world_pipe = (\<lambda>host i. (0, None))"
    "hiveConnect world_eof = (\<lambda>host i. (0, None))"
    by (simp_all add: world_pipe_def world_eof_def)
  have cq: "connQuery world_pipe c s i = (if i = 0 then Some brokenPipe else None)"
    "connQuery world_eof c s i = Some EOF" for c s i
    by (simp_all add: world_pipe_def world_eof_def)
  have rc: "reconnects (Some brokenPipe)" "reconnects (Some EOF)" "\<not> reconnects None"
    by (simp_all add: reconnects_def brokenPipe_def isErrBrokenPipe_def)
  have pipe: "Query world_pipe (newHiveQueryer ''hive:10000'' False (Chan None)) ''select 1''
      env0 =
     (None,
      (newHiveQueryer ''hive:10000'' False (Chan None))\<lparr>hiveConn := Some (Connection 1 False)\<rparr>,
      env0\<lparr>connects := 2, queries := 2,
           events := [EvConnect 0, EvQuery (Connection 0 False) ''select 1'',
                      EvClose (Connection 0 False),
                      EvConnect 1, EvQuery (Connection 1 False) ''select 1'']\<rparr>)"
    using Query_retries_three_times [OF t p t p t p,
        where w = world_pipe and q = "newHiveQueryer ''hive:10000'' False (Chan None)"
        and query = "''select 1''" and e = env0, THEN conjunct2, THEN conjunct2,
        THEN conjunct2, THEN conjunct2, THEN conjunct1]
    by (simp add: attempt_up up cq rc closeHiveConnection_def newHiveQueryer_def env0_def)
  have eof: "Query world_eof (newHiveQueryer ''hive:10000'' False (Chan None)) ''select 1''
      env0 =
     (Some errUnableToConnect,
      newHiveQueryer ''hive:10000'' False (Chan None),
      env0\<lparr>connects := 3, queries := 3,
           events := [EvConnect 0, EvQuery (Connection 0 False) ''select 1'',
                      EvClose (Connection 0 False),
                      EvConnect 1, EvQuery (Connection 1 False) ''select 1'',
                      EvClose (Connection 1 False),
                      EvConnect 2, EvQuery (Connection 2 False) ''select 1'',
                      EvClose (Connection 2 False)]\<rparr>)"
    using Query_retries_three_times [OF t p t p t p,
        where w = world_eof and q = "newHiveQueryer ''hive:10000'' False (Chan None)"
        and query = "''select 1''" and e = env0, THEN conjunct2, THEN conjunct2,
        THEN conjunct2, THEN conjunct2, THEN conjunct1]
    by (simp add: attempt_up up cq rc closeHiveConnection_def newHiveQueryer_def env0_def)
  show ?thesis using pipe eof by simp
qed

text \<open>
  C8. When the query on the connection returns an error that is neither \<open>io.EOF\<close> nor a
  broken pipe, \<open>Query\<close> returns that very error, in the state in which the query
  returned: the queryer still stores the connection the query was sent on, and nothing
  is closed after the query.
\<close>

theorem Query_other_error_keeps_connection:
  "retries < maxRetries \<Longrightarrow> getHiveConnection w q e = (Inr hc, q1, e1) \<Longrightarrow>
   conn_Query w hc query e1 = (Some er, e2) \<Longrightarrow> er \<noteq> EOF \<Longrightarrow> \<not> isErrBrokenPipe (Some er) \<Longrightarrow>
     Query_loop w query retries q e = (Some er, q1, e2)
     \<and> hiveConn q1 = Some hc
     \<and> events e2 = events e1 @ [EvQuery hc query]
     \<and> (retries = 0 \<longrightarrow> Query w q query e = (Some er, q1, e2))"
proof -
  assume a: "retries < maxRetries" "getHiveConnection w q e = (Inr hc, q1, e1)"
    "conn_Query w hc query e1 = (Some er, e2)" "er \<noteq> EOF" "\<not> isErrBrokenPipe (Some er)"
  have l: "Query_loop w query retries q e = (Some er, q1, e2)"
    using a by (subst Query_loop.simps) simp
  have s: "hiveConn q1 = Some hc" using a(2) by (rule getHiveConnection_stored)
  have ev: "events e2 = events e1 @ [EvQuery hc query]"
    using a(3) by (auto simp: conn_Query_def)
  show ?thesis using l s ev by (auto simp: Query_def)
qed

theorem Query_other_error_keeps_connection_witness:
  "Query world_syntax (newHiveQueryer ''hive:10000'' False (Chan None)) ''selec 1'' env0 =
     (Some (Errorf ''hive: syntax error'' []),
      (newHiveQueryer ''hive:10000'' False (Chan None))\<lparr>hiveConn := Some (Connection 0 False)\<rparr>,
      env0\<lparr>connects := 1, queries := 1,
           events := [EvConnect 0, EvQuery (Connection 0 False) ''selec 1'']\<rparr>)"
proof -
  define q0 where "q0 = newHiveQueryer ''hive:10000'' False (Chan None)"
  have h: "hiveConn q0 = None" "logQueries q0 = False"
    by (simp_all add: q0_def newHiveQueryer_def)
  have c: "newHiveConn_loop world_syntax q0 0 env0 =
     (Inr (Connection 0 False), env0\<lparr>connects := 1, events := [EvConnect 0]\<rparr>)"
    by (subst newHiveConn_loop.simps) (simp add: world_syntax_def Let_def env0_def h)
  have g: "getHiveConnection world_syntax q0 env0 =
     (Inr (Connection 0 False), q0\<lparr>hiveConn := Some (Connection 0 False)\<rparr>,
      env0\<lparr>connects := 1, events := [EvConnect 0]\<rparr>)"
    using c by (simp add: getHiveConnection_def newHiveConn_def h env0_def)
  have cq: "conn_Query world_syntax (Connection 0 False) ''selec 1''
       (env0\<lparr>connects := 1, events := [EvConnect 0]\<rparr>) =
     (Some (Errorf ''hive: syntax error'' []),
      env0\<lparr>connects := 1, queries := 1,
           events := [EvConnect 0, EvQuery (Connection 0 False) ''selec 1'']\<rparr>)"
    by (simp add: conn_Query_def world_syntax_def env0_def)
  have lt: "(0::nat) < maxRetries" by (simp add: maxRetries_def)
  have nb: "\<not> isErrBrokenPipe (Some (Errorf ''hive: syntax error'' []))"
    by (simp add: isErrBrokenPipe_def)
  from Query_other_error_keeps_connection [OF lt g cq _ nb]
  show ?thesis unfolding q0_def [symmetric] by simp
qed

subsection \<open>The initialized flag\<close>

lemma apply_op_initialized:
  "initialized (apply_op x c) = (initialized c \<or> x = CallSetInitialized)"
  by (cases x) (simp_all add: setInitialized_def)

lemma apply_ops_initialized:
  "initialized c \<Longrightarrow> initialized (apply_ops xs c)"
  by (induction xs arbitrary: c) (simp_all add: apply_op_initialized)

text \<open>
  C9. The flag \<open>initialized\<close> is false in the operator that \<open>New\<close> returns. An
  operation leaves it true if it was true, and makes it true only if it is
  \<open>setInitialized\<close>. Hence once \<open>isInitialized\<close> has answered true, it answers true
  after any further operations.
\<close>

theorem initialized_monotone:
  "(\<forall>c0. New cf inClusterConfigErr newForConfigErr = NewOk c0 \<longrightarrow> \<not> isInitialized c0)
   \<and> initialized (apply_op x c) = (initialized c \<or> x = CallSetInitialized)
   \<and> isInitialized (setInitialized c)
   \<and> (isInitialized c \<longrightarrow> isInitialized (apply_ops xs c))"
  using apply_op_initialized [of x c] apply_ops_initialized [of c xs]
  by (auto simp: New_def isInitialized_def setInitialized_def split: option.splits)

theorem initialized_monotone_witness:
  "(\<exists>c0. New config0 None None = NewOk c0 \<and> \<not> isInitialized c0
      \<and> \<not> isInitialized (apply_ops [SetPrestoDB (DB ''presto://presto:8080/hive/default'' 0),
             CallIsInitialized] c0)
      \<and> isInitialized (apply_ops [CallSetInitialized, SetPromConn ''http://prometheus:9090'',
             CallIsInitialized] c0))"
proof -
  define c0 where "c0 = \<lparr>cfg = config0, prestoConn = None, prestoDB = None, hiveQueryer = None,
                      promConn = None, initialized = False\<rparr>"
  have n: "New config0 None None = NewOk c0" by (simp add: New_def c0_def)
  have i: "isInitialized (setInitialized c0)"
    by (simp add: isInitialized_def setInitialized_def)
  from initialized_monotone [of config0 None None CallSetInitialized "setInitialized c0"
      "[SetPromConn ''http://prometheus:9090'', CallIsInitialized]"]
  have "\<not> isInitialized c0"
    and "isInitialized (apply_ops [SetPromConn ''http://prometheus:9090'', CallIsInitialized]
           (setInitialized c0))"
    using n i by simp_all
  then show ?thesis
    using n by (simp add: isInitialized_def)
qed

end
